theory Spec2Isabelle
  imports Complex_Main "HOL-Library.Sublist"
begin

section \<open>Python text and numbers\<close>

text \<open>
  Text is a list of 8-bit characters (UTF-8 bytes). Python's character predicates are
  modelled on their ASCII range: \<open>str.isspace\<close> holds for the codes 9 to 13, 28 to 31 and
  32, \<open>str.isdigit\<close> for the codes of \<open>0\<close> to \<open>9\<close>. Whitespace and digits beyond ASCII
  are outside the model. Python's unbounded integers are \<open>int\<close>. A finite \<open>float\<close> is
  the rational number it denotes, and an arithmetic operation on floats is the exact
  operation followed by \<open>round_double\<close>, the rounding to the nearest double (infinities,
  NaN and results beyond the largest double are not modelled).
\<close>

abbreviation newline :: char where
  "newline \<equiv> CHR 0x0A"

abbreviation esc :: char where
  "esc \<equiv> CHR 0x1B"

definition isspace :: "char \<Rightarrow> bool" where
  "isspace c = (let n = (of_char c :: nat) in (9 \<le> n \<and> n \<le> 13) \<or> (28 \<le> n \<and> n \<le> 32))"

definition lstrip :: "string \<Rightarrow> string" where
  "lstrip s = dropWhile isspace s"

definition rstrip :: "string \<Rightarrow> string" where
  "rstrip s = rev (dropWhile isspace (rev s))"

text \<open>\<open>s.strip()\<close>: leading and trailing whitespace removed.\<close>

definition strip :: "string \<Rightarrow> string" where
  "strip s = rstrip (lstrip s)"

definition isdigit_chr :: "char \<Rightarrow> bool" where
  "isdigit_chr c = (let n = (of_char c :: nat) in 48 \<le> n \<and> n \<le> 57)"

text \<open>\<open>s.isdigit()\<close>: false on the empty string.\<close>

definition isdigit :: "string \<Rightarrow> bool" where
  "isdigit s = (s \<noteq> [] \<and> list_all isdigit_chr s)"

definition digit_val :: "char \<Rightarrow> int" where
  "digit_val c = int (of_char c) - 48"

text \<open>The value of a string of decimal digits, most significant digit first.\<close>

definition digits_value :: "string \<Rightarrow> int" where
  "digits_value s = foldl (\<lambda>acc c. 10 * acc + digit_val c) 0 s"

text \<open>
  The digits of a base-10 literal accepted by \<open>int()\<close>: decimal digits, with single
  underscores allowed between two digits.
\<close>

fun int_body_ok :: "string \<Rightarrow> bool" where
  "int_body_ok [] = False"
| "int_body_ok [c] = isdigit_chr c"
| "int_body_ok (c # d # cs) =
     (isdigit_chr c \<and> (if d = CHR ''_'' then int_body_ok cs else int_body_ok (d # cs)))"

text \<open>
  \<open>int(s)\<close> for a string: surrounding whitespace is ignored, one sign is allowed;
  \<open>None\<close> stands for the \<open>ValueError\<close> it raises on anything else. (The interpreter's
  optional cap on the number of digits is not modelled.)
\<close>

definition py_int :: "string \<Rightarrow> int option" where
  "py_int s =
     (let t = strip s;
          neg = (t \<noteq> [] \<and> hd t = CHR ''-'');
          body = (if t \<noteq> [] \<and> (hd t = CHR ''-'' \<or> hd t = CHR ''+'') then tl t else t)
      in if int_body_ok body
         then Some ((if neg then - 1 else 1) * digits_value (filter (\<lambda>c. c \<noteq> CHR ''_'') body))
         else None)"

definition digit_chr :: "nat \<Rightarrow> char" where
  "digit_chr n = ''0123456789'' ! n"

fun str_nat :: "nat \<Rightarrow> string" where
  "str_nat n = (if n < 10 then [digit_chr n] else str_nat (n div 10) @ [digit_chr (n mod 10)])"

declare str_nat.simps [simp del]

text \<open>\<open>str(i)\<close> for an integer, as an f-string renders it.\<close>

definition str_int :: "int \<Rightarrow> string" where
  "str_int i = (if i < 0 then CHR ''-'' # str_nat (nat (- i)) else str_nat (nat i))"

text \<open>
  \<open>s.split(sep)\<close> for a one-character separator. The result is never the empty list,
  so the first case of the \<open>case\<close> is never taken.
\<close>

fun split_sep :: "char \<Rightarrow> string \<Rightarrow> string list" where
  "split_sep sep [] = [[]]"
| "split_sep sep (c # cs) =
     (if c = sep then [] # split_sep sep cs
      else (case split_sep sep cs of [] \<Rightarrow> [[c]] | w # ws \<Rightarrow> (c # w) # ws))"

text \<open>
  \<open>s.split()\<close>: the maximal runs of non-whitespace characters. The first argument is
  the word being read, reversed.
\<close>

fun split_ws_aux :: "string \<Rightarrow> string \<Rightarrow> string list" where
  "split_ws_aux w [] = (if w = [] then [] else [rev w])"
| "split_ws_aux w (c # cs) =
     (if isspace c then (if w = [] then split_ws_aux [] cs else rev w # split_ws_aux [] cs)
      else split_ws_aux (c # w) cs)"

definition split_ws :: "string \<Rightarrow> string list" where
  "split_ws s = split_ws_aux [] s"

text \<open>
  The lines of a text file as iteration over the file object yields them: each line
  keeps its terminating newline (the last one may have none). The text is taken after
  Python's newline translation, so \<open>newline\<close> is the only line terminator.
\<close>

fun file_lines :: "string \<Rightarrow> string list" where
  "file_lines [] = []"
| "file_lines (c # cs) =
     (if c = newline then [c] # file_lines cs
      else (case file_lines cs of [] \<Rightarrow> [[c]] | l # ls \<Rightarrow> (c # l) # ls))"

subsection \<open>Floating-point arithmetic\<close>

text \<open>\<open>2\<close> to the power \<open>e\<close>, for an integer \<open>e\<close>.\<close>

definition pow2 :: "int \<Rightarrow> rat" where
  "pow2 e = (if 0 \<le> e then 2 ^ nat e else 1 / 2 ^ nat (- e))"

text \<open>The number of binary digits of a natural number.\<close>

fun bit_length :: "nat \<Rightarrow> nat" where
  "bit_length n = (if n = 0 then 0 else Suc (bit_length (n div 2)))"

declare bit_length.simps [simp del]

text \<open>
  The binary exponent of a positive rational \<open>x\<close>: the integer \<open>e\<close> with
  \<open>pow2 e \<le> x < pow2 (e + 1)\<close>.
\<close>

definition ilog2 :: "rat \<Rightarrow> int" where
  "ilog2 x =
     (let e = (if 1 \<le> x then int (bit_length (nat \<lfloor>x\<rfloor>)) - 1
               else - int (bit_length (nat \<lfloor>1 / x\<rfloor>)))
      in if pow2 (e + 1) \<le> x then e + 1 else e)"

text \<open>The nearest integer; a value half-way between two integers goes to the even one.\<close>

definition round_half_even :: "rat \<Rightarrow> int" where
  "round_half_even y =
     (let f = \<lfloor>y\<rfloor>; d = y - of_int f
      in if d < 1 / 2 then f else if 1 / 2 < d then f + 1
         else if even f then f else f + 1)"

text \<open>
  The IEEE 754 double nearest to \<open>x\<close> (ties to even): doubles have 53 significant
  binary digits, and below \<open>pow2 (- 1022)\<close> they are the multiples of \<open>pow2 (- 1074)\<close>.
  So \<open>a * b\<close> on two floats is \<open>round_double (a * b)\<close>, and \<open>a / b\<close> on two integers
  is \<open>round_double (a / b)\<close>.
\<close>

definition round_double :: "rat \<Rightarrow> rat" where
  "round_double x =
     (if x = 0 then 0
      else (let ulp = pow2 (max (ilog2 \<bar>x\<bar>) (- 1022) - 52)
            in of_int (round_half_even (x / ulp)) * ulp))"

section \<open>app\_health\_checker.py\<close>

subsection \<open>The environment and the trace\<close>

text \<open>
  What \<open>subprocess.run\<close> does with the curl command: it returns with the captured
  standard output, raises \<open>TimeoutExpired\<close>, or raises another \<open>Exception\<close> whose
  \<open>str\<close> is the given text.
\<close>

datatype run_outcome = Completed string | TimeoutExpired | Raised string

text \<open>What opening and reading a file does.\<close>

datatype file_outcome = Contents string | FileNotFoundError | ReadError string

text \<open>
  The environment of one run of the script: the outcome of the \<open>k\<close>-th call of
  \<open>subprocess.run\<close> (given its command line and its timeout), the text of
  \<open>datetime.now()\<close> formatted at the \<open>k\<close>-th check, the file system, and the help text
  of the argument parser.
\<close>

record env =
  run :: "nat \<Rightarrow> string list \<Rightarrow> int \<Rightarrow> run_outcome"
  now :: "nat \<Rightarrow> string"
  read_file :: "string \<Rightarrow> file_outcome"
  help_text :: string

text \<open>The observable actions of the script, in the order they happen.\<close>

datatype event =
    Spawn "string list" int  \<comment> \<open>\<open>subprocess.run(cmd, timeout=...)\<close>\<close>
  | Print string             \<comment> \<open>\<open>print(...)\<close>\<close>
  | Sleep int                \<comment> \<open>\<open>time.sleep(...)\<close>\<close>

subsection \<open>check\_application\_health\<close>

datatype status = UP | DOWN | UNKNOWN

text \<open>The \<open>status_code\<close> entry: an integer, or one of the strings N/A, TIMEOUT, ERROR.\<close>

datatype code = Code int | NA | TIMEOUT | ERROR

record verdict =
  url :: string
  status :: status
  status_code :: code
  message :: string
  timestamp :: string

definition curl_cmd :: "string \<Rightarrow> int \<Rightarrow> string list" where
  "curl_cmd u timeout =
     [''curl'', ''-s'', ''-o'', ''/dev/null'', ''-w'', ''%{http_code}'',
      ''--max-time'', str_int timeout, ''--insecure'', u]"

text \<open>Lines 54 to 68: the status and the message of a numeric status code.\<close>

definition classify_code :: "int \<Rightarrow> status \<times> string" where
  "classify_code c =
     (if 200 \<le> c \<and> c < 300 then (UP, ''Application is functioning correctly'')
      else if 300 \<le> c \<and> c < 400 then (UP, ''Application is up (redirect)'')
      else if 400 \<le> c \<and> c < 500 then (DOWN, ''Client error (HTTP '' @ str_int c @ '')'')
      else if 500 \<le> c \<and> c < 600 then (DOWN, ''Server error (HTTP '' @ str_int c @ '')'')
      else (UNKNOWN, ''Unexpected status code: '' @ str_int c))"

text \<open>
  The \<open>k\<close>-th check of the run. The call of \<open>subprocess.run\<close> is the first thing the
  function does; \<open>int\<close> cannot raise on a string that passed \<open>isdigit\<close>.
\<close>

definition check_application_health :: "env \<Rightarrow> nat \<Rightarrow> string \<Rightarrow> int \<Rightarrow> event list \<times> verdict" where
  "check_application_health e k u timeout =
     (let cmd = curl_cmd u timeout in
      ([Spawn cmd (timeout + 2)],
       (case run e k cmd (timeout + 2) of
          Completed out \<Rightarrow>
            (let sc = strip out in
             if sc = [] \<or> \<not> isdigit sc
             then \<lparr>url = u, status = DOWN, status_code = NA,
                   message = ''Unable to connect or receive response'', timestamp = now e k\<rparr>
             else (let c = digits_value sc; (st, msg) = classify_code c
                   in \<lparr>url = u, status = st, status_code = Code c,
                        message = msg, timestamp = now e k\<rparr>))
        | TimeoutExpired \<Rightarrow>
            \<lparr>url = u, status = DOWN, status_code = TIMEOUT,
             message = ''Request timeout after '' @ str_int timeout @ '' seconds'',
             timestamp = now e k\<rparr>
        | Raised err \<Rightarrow>
            \<lparr>url = u, status = DOWN, status_code = ERROR,
             message = ''Error: '' @ err, timestamp = now e k\<rparr>)))"

subsection \<open>format\_result and check\_multiple\_urls\<close>

definition status_str :: "status \<Rightarrow> string" where
  "status_str s = (case s of UP \<Rightarrow> ''UP'' | DOWN \<Rightarrow> ''DOWN'' | UNKNOWN \<Rightarrow> ''UNKNOWN'')"

definition code_str :: "code \<Rightarrow> string" where
  "code_str c = (case c of Code i \<Rightarrow> str_int i | NA \<Rightarrow> ''N/A'' | TIMEOUT \<Rightarrow> ''TIMEOUT''
                 | ERROR \<Rightarrow> ''ERROR'')"

text \<open>The check mark and the ballot cross of the source, as UTF-8.\<close>

definition check_mark :: string where
  "check_mark = [CHR 0xE2, CHR 0x9C, CHR 0x93]"

definition ballot_x :: string where
  "ballot_x = [CHR 0xE2, CHR 0x9C, CHR 0x97]"

definition format_result :: "verdict \<Rightarrow> string" where
  "format_result result =
     (let status_symbol = (if status result = UP then check_mark else ballot_x);
          status_color = (if status result = UP then esc # ''[92m'' else esc # ''[91m'');
          reset_color = esc # ''[0m''
      in [newline] @ status_color @ ''['' @ status_symbol @ ''] '' @ url result @ reset_color
         @ [newline] @ ''    Status: '' @ status_str (status result)
         @ [newline] @ ''    HTTP Code: '' @ code_str (status_code result)
         @ [newline] @ ''    Message: '' @ message result
         @ [newline] @ ''    Checked at: '' @ timestamp result
         @ [newline])"

definition rule70 :: string where
  "rule70 = replicate 70 (CHR ''='')"

text \<open>The loop of lines 116 to 119, from the \<open>k\<close>-th check on.\<close>

fun check_each :: "env \<Rightarrow> nat \<Rightarrow> string list \<Rightarrow> int \<Rightarrow> event list \<times> verdict list" where
  "check_each e k [] timeout = ([], [])"
| "check_each e k (u # us) timeout =
     (let (ev, result) = check_application_health e k u timeout;
          (evs, results) = check_each e (Suc k) us timeout
      in (ev @ [Print (format_result result)] @ evs, result # results))"

definition up_count :: "verdict list \<Rightarrow> nat" where
  "up_count results = length (filter (\<lambda>r. status r = UP) results)"

definition down_count :: "verdict list \<Rightarrow> nat" where
  "down_count results = length (filter (\<lambda>r. status r = DOWN) results)"

definition summary_line :: "verdict list \<Rightarrow> string" where
  "summary_line results =
     ''SUMMARY: '' @ str_nat (up_count results) @ '' UP | '' @ str_nat (down_count results)
     @ '' DOWN | Total: '' @ str_nat (length results)"

definition check_multiple_urls :: "env \<Rightarrow> string list \<Rightarrow> int \<Rightarrow> event list \<times> verdict list" where
  "check_multiple_urls e urls timeout =
     (let (evs, results) = check_each e 0 urls timeout
      in ([Print rule70, Print ''APPLICATION HEALTH CHECK REPORT'', Print rule70]
          @ evs
          @ [Print rule70, Print (summary_line results), Print rule70],
          results))"

subsection \<open>continuous\_monitor, read\_urls\_from\_file and main\<close>

text \<open>How the script ends: \<open>main\<close> returns (exit status 0), \<open>sys.exit\<close> is called with a
  status, or an exception nothing catches ends it with a traceback.\<close>

datatype py_error = ValueError | IndexError | KeyError | ZeroDivisionError

datatype ending = Returned | Exit nat | Uncaught py_error

text \<open>The body of the \<open>while True\<close> loop, run \<open>n\<close> times from the \<open>k\<close>-th check on.\<close>

fun monitor_ticks :: "env \<Rightarrow> nat \<Rightarrow> nat \<Rightarrow> string \<Rightarrow> int \<Rightarrow> int \<Rightarrow> event list" where
  "monitor_ticks e k 0 u interval timeout = []"
| "monitor_ticks e k (Suc n) u interval timeout =
     (let (ev, result) = check_application_health e k u timeout
      in ev @ [Print (format_result result), Sleep interval]
         @ monitor_ticks e (Suc k) n u interval timeout)"

text \<open>
  The loop runs until the user interrupts it. The interrupt is modelled as arriving
  during a sleep: \<open>Some n\<close> is an interrupt during the sleep that follows check number
  \<open>n + 1\<close>, \<open>None\<close> is no interrupt, and then the function does not return (the result is
  \<open>None\<close>). \<open>time.sleep\<close> raises \<open>ValueError\<close> on a negative interval, which nothing
  catches.
\<close>

definition continuous_monitor ::
  "env \<Rightarrow> string \<Rightarrow> int \<Rightarrow> int \<Rightarrow> nat option \<Rightarrow> (event list \<times> ending) option" where
  "continuous_monitor e u interval timeout interrupt =
     (let header = [Print (''Starting continuous monitoring of '' @ u),
                    Print (''Check interval: '' @ str_int interval @ '' seconds''),
                    Print (''Press Ctrl+C to stop'' @ [newline])]
      in if interval < 0
         then Some (header @ monitor_ticks e 0 1 u interval timeout, Uncaught ValueError)
         else (case interrupt of
                 None \<Rightarrow> None
               | Some n \<Rightarrow>
                   Some (header @ monitor_ticks e 0 (Suc n) u interval timeout
                         @ [Print ([newline, newline] @ ''Monitoring stopped by user.'')],
                         Returned)))"

text \<open>\<open>line.startswith('#')\<close>\<close>

definition startswith_hash :: "string \<Rightarrow> bool" where
  "startswith_hash line = prefix ''#'' line"

text \<open>
  \<open>Inr\<close> is the list the function returns; \<open>Inl\<close> is what it prints before it calls
  \<open>sys.exit(1)\<close>.
\<close>

definition read_urls_from_file :: "env \<Rightarrow> string \<Rightarrow> event list + string list" where
  "read_urls_from_file e filename =
     (case read_file e filename of
        Contents text \<Rightarrow>
          Inr (map strip (filter (\<lambda>line. strip line \<noteq> [] \<and> \<not> startswith_hash line)
                                 (file_lines text)))
      | FileNotFoundError \<Rightarrow> Inl [Print (''Error: File '' @ [CHR 0x27] @ filename @ [CHR 0x27] @ '' not found.'')]
      | ReadError err \<Rightarrow> Inl [Print (''Error reading file: '' @ err)])"

text \<open>The parsed command line of app\_health\_checker.py.\<close>

record args =
  args_urls :: "string list"
  args_file :: "string option"
  args_continuous :: bool
  args_interval :: int
  args_timeout :: int

text \<open>Lines 183 to 190: the list of URLs, or what is printed before \<open>sys.exit(1)\<close>.\<close>

definition determine_urls :: "env \<Rightarrow> args \<Rightarrow> event list + string list" where
  "determine_urls e a =
     (case args_file a of
        Some f \<Rightarrow>
          if f \<noteq> [] then read_urls_from_file e f
          else if args_urls a \<noteq> [] then Inr (args_urls a)
          else Inl [Print (help_text e)]
      | None \<Rightarrow>
          if args_urls a \<noteq> [] then Inr (args_urls a) else Inl [Print (help_text e)])"

definition main :: "env \<Rightarrow> args \<Rightarrow> nat option \<Rightarrow> (event list \<times> ending) option" where
  "main e a interrupt =
     (case determine_urls e a of
        Inl printed \<Rightarrow> Some (printed, Exit 1)
      | Inr urls \<Rightarrow>
          if urls = [] then Some ([Print ''Error: No URLs provided''], Exit 1)
          else if args_continuous a then
            (if length urls > 1
             then Some ([Print ''Error: Continuous mode requires exactly one URL''], Exit 1)
             else continuous_monitor e (hd urls) (args_interval a) (args_timeout a) interrupt)
          else Some (fst (check_multiple_urls e urls (args_timeout a)), Returned))"

subsection \<open>The time a probe takes\<close>

text \<open>
  The source leaves the passing of time to \<open>subprocess.run\<close> and to curl. Their timing
  is not in the source; it is modelled here from their documentation, in seconds from
  the start of the call, with the start-up of a process taken as instantaneous.

  A child process exits by itself after some time, having printed its output, or never
  exits, or cannot be started.
\<close>

datatype child = Exits rat string | Hangs | Cannot_start string

text \<open>
  \<open>subprocess.run(cmd, timeout=tmo)\<close>: the outcome and the seconds the call lasts. A
  child that has not exited when the timeout is over is killed and \<open>TimeoutExpired\<close> is
  raised.
\<close>

definition subprocess_run :: "child \<Rightarrow> int \<Rightarrow> run_outcome \<times> rat" where
  "subprocess_run c tmo =
     (case c of
        Exits d out \<Rightarrow>
          if d \<le> of_int tmo then (Completed out, d) else (TimeoutExpired, max 0 (of_int tmo))
      | Hangs \<Rightarrow> (TimeoutExpired, max 0 (of_int tmo))
      | Cannot_start err \<Rightarrow> (Raised err, 0))"

text \<open>
  A site answers after some time with a response whose status code curl then prints,
  or never answers. Nothing of the response arrives before that time.
\<close>

datatype site = Answers rat string | Silent

text \<open>The number that follows \<open>--max-time\<close> on a command line.\<close>

fun max_time :: "string list \<Rightarrow> int option" where
  "max_time [] = None"
| "max_time [a] = None"
| "max_time (a # b # cmd) = (if a = ''--max-time'' then py_int b else max_time (b # cmd))"

text \<open>
  curl with \<open>-w '%{http_code}'\<close>: it prints the status code when the transfer is
  complete. A positive \<open>--max-time\<close> ends the transfer after that many seconds, and curl
  then prints 000, having received no response; \<open>--max-time 0\<close> sets no limit. curl
  refuses a limit that is negative or that it cannot read: it exits at once and prints
  nothing.
\<close>

definition curl :: "site \<Rightarrow> string list \<Rightarrow> child" where
  "curl s cmd =
     (case max_time cmd of
        None \<Rightarrow> Exits 0 []
      | Some m \<Rightarrow>
          if m < 0 then Exits 0 []
          else (case s of
                  Answers d http_code \<Rightarrow>
                    if m = 0 \<or> d \<le> of_int m then Exits d http_code
                    else Exits (of_int m) ''000''
                | Silent \<Rightarrow> if m = 0 then Hangs else Exits (of_int m) ''000''))"

text \<open>The seconds that the call of \<open>subprocess.run\<close> in a check of \<open>u\<close> lasts.\<close>

definition probe_seconds :: "site \<Rightarrow> string \<Rightarrow> int \<Rightarrow> rat" where
  "probe_seconds s u timeout =
     snd (subprocess_run (curl s (curl_cmd u timeout)) (timeout + 2))"

text \<open>The environment in which the \<open>k\<close>-th check meets the site \<open>sites k\<close>.\<close>

definition timed_env :: "(nat \<Rightarrow> site) \<Rightarrow> env" where
  "timed_env sites =
     \<lparr>run = (\<lambda>k cmd tmo. fst (subprocess_run (curl (sites k) cmd) tmo)),
      now = (\<lambda>k. ''2024-01-01 00:00:00''),
      read_file = (\<lambda>f. FileNotFoundError),
      help_text = ''usage''\<rparr>"

section \<open>system\_health\_monitor.py\<close>

subsection \<open>The environment\<close>

text \<open>
  The host as one check sees it: the platform name, the standard output of a shell
  pipeline (\<open>None\<close> when \<open>subprocess.run\<close> raises), the text of a file (\<open>None\<close> when
  opening or reading it raises), the clock, and the interpreter's conversions between
  floats and text: \<open>float(s)\<close> (the double it reads, \<open>None\<close> for its \<open>ValueError\<close>),
  \<open>round(x, 2)\<close> and the \<open>.1f\<close> format.
\<close>

record sys_env =
  platform_system :: string
  shell :: "string \<Rightarrow> string option"
  open_read :: "string \<Rightarrow> string option"
  sys_now :: string
  float_of :: "string \<Rightarrow> rat option"
  round_2 :: "rat \<Rightarrow> rat"
  fmt_1f :: "rat \<Rightarrow> string"

definition DEFAULT_THRESHOLDS :: "string \<rightharpoonup> int" where
  "DEFAULT_THRESHOLDS = [''cpu'' \<mapsto> 80, ''memory'' \<mapsto> 80, ''disk'' \<mapsto> 80]"

subsection \<open>The probes\<close>

definition cpu_cmd_darwin :: string where
  "cpu_cmd_darwin = ''top -l 1 | grep '' @ [CHR 0x27] @ ''CPU usage'' @ [CHR 0x27]
     @ '' | awk '' @ [CHR 0x27] @ ''{print $3}'' @ [CHR 0x27]
     @ '' | sed '' @ [CHR 0x27] @ ''s/%//'' @ [CHR 0x27]"

definition cpu_cmd_linux :: string where
  "cpu_cmd_linux = ''top -bn1 | grep '' @ [CHR 0x27] @ ''Cpu(s)'' @ [CHR 0x27]
     @ '' | awk '' @ [CHR 0x27] @ ''{print $2}'' @ [CHR 0x27]
     @ '' | sed '' @ [CHR 0x27] @ ''s/%us,//'' @ [CHR 0x27]"

text \<open>The \<open>try\<close> block of \<open>get_cpu_usage\<close>: \<open>None\<close> when it raises.\<close>

definition cpu_primary :: "sys_env \<Rightarrow> rat option" where
  "cpu_primary e =
     (case shell e (if platform_system e = ''Darwin'' then cpu_cmd_darwin else cpu_cmd_linux) of
        None \<Rightarrow> None
      | Some out \<Rightarrow> float_of e (strip out))"

text \<open>The inner \<open>try\<close> block, on /proc/loadavg: \<open>None\<close> when it raises.\<close>

definition cpu_fallback :: "sys_env \<Rightarrow> rat option" where
  "cpu_fallback e =
     (case open_read e ''/proc/loadavg'' of
        None \<Rightarrow> None
      | Some text \<Rightarrow>
          (case split_ws text of
             [] \<Rightarrow> None
           | w # ws \<Rightarrow>
               (case float_of e w of
                  None \<Rightarrow> None
                | Some load \<Rightarrow> Some (min (round_double (load * 25)) 100))))"

definition get_cpu_usage :: "sys_env \<Rightarrow> rat" where
  "get_cpu_usage e =
     (case cpu_primary e of
        Some v \<Rightarrow> v
      | None \<Rightarrow> (case cpu_fallback e of Some v \<Rightarrow> v | None \<Rightarrow> 0))"

text \<open>\<open>xs[i]\<close> for an index that is not negative: \<open>None\<close> for the \<open>IndexError\<close>.\<close>

definition index :: "'a list \<Rightarrow> nat \<Rightarrow> 'a option" where
  "index xs i = (if i < length xs then Some (xs ! i) else None)"

definition mem_cmd_total :: string where
  "mem_cmd_total = ''sysctl -n hw.memsize''"

definition mem_cmd_free :: string where
  "mem_cmd_free = ''vm_stat | grep '' @ [CHR 0x27] @ ''Pages free'' @ [CHR 0x27]
     @ '' | awk '' @ [CHR 0x27] @ ''{print $3}'' @ [CHR 0x27]
     @ '' | sed '' @ [CHR 0x27] @ ''s/'' @ [CHR 0x5C] @ ''.//'' @ [CHR 0x27]"

text \<open>\<open>int([l for l in lines if name in l][0].split()[1])\<close>\<close>

definition meminfo_field :: "string list \<Rightarrow> string \<Rightarrow> int option" where
  "meminfo_field lines name =
     (case index (filter (\<lambda>l. sublist name l) lines) 0 of
        None \<Rightarrow> None
      | Some l \<Rightarrow> (case index (split_ws l) 1 of None \<Rightarrow> None | Some w \<Rightarrow> py_int w))"

text \<open>The \<open>try\<close> block of \<open>get_memory_usage\<close>: \<open>None\<close> when it raises.\<close>

definition memory_measure :: "sys_env \<Rightarrow> rat option" where
  "memory_measure e =
     (if platform_system e = ''Darwin'' then
        (case shell e mem_cmd_total of
           None \<Rightarrow> None
         | Some out_total \<Rightarrow>
             (case py_int (strip out_total) of
                None \<Rightarrow> None
              | Some total_mem \<Rightarrow>
                  (case shell e mem_cmd_free of
                     None \<Rightarrow> None
                   | Some out_free \<Rightarrow>
                       (case py_int (strip out_free) of
                          None \<Rightarrow> None
                        | Some free_pages \<Rightarrow>
                            (let page_size = 4096;
                                 free_memory = free_pages * page_size;
                                 used_memory = total_mem - free_memory
                             in if total_mem = 0 then None
                                else Some (round_2 e
                                       (round_double
                                          (round_double
                                             (of_int used_memory / of_int total_mem)
                                           * 100))))))))
      else
        (case open_read e ''/proc/meminfo'' of
           None \<Rightarrow> None
         | Some text \<Rightarrow>
             (let lines = file_lines text in
              case meminfo_field lines ''MemTotal'' of
                None \<Rightarrow> None
              | Some mem_total \<Rightarrow>
                  (case meminfo_field lines ''MemAvailable'' of
                     None \<Rightarrow> None
                   | Some mem_available \<Rightarrow>
                       if mem_total = 0 then None
                       else Some (round_2 e
                              (round_double
                                 (round_double
                                    (of_int (mem_total - mem_available) / of_int mem_total)
                                  * 100)))))))"

definition get_memory_usage :: "sys_env \<Rightarrow> rat" where
  "get_memory_usage e = (case memory_measure e of Some v \<Rightarrow> v | None \<Rightarrow> 0)"

definition disk_cmd :: string where
  "disk_cmd = ''df -h / | tail -1 | awk '' @ [CHR 0x27] @ ''{print $5}'' @ [CHR 0x27]
     @ '' | sed '' @ [CHR 0x27] @ ''s/%//'' @ [CHR 0x27]"

definition get_disk_usage :: "sys_env \<Rightarrow> rat" where
  "get_disk_usage e =
     (case shell e disk_cmd of
        None \<Rightarrow> 0
      | Some out \<Rightarrow> (case float_of e (strip out) of None \<Rightarrow> 0 | Some v \<Rightarrow> v))"

record process =
  user :: string
  pid :: string
  cpu :: string
  mem :: string
  command :: string

text \<open>\<open>' '.join(parts)\<close>\<close>

fun join_space :: "string list \<Rightarrow> string" where
  "join_space [] = []"
| "join_space [w] = w"
| "join_space (w # ws) = w @ '' '' @ join_space ws"

definition top_cmd :: "sys_env \<Rightarrow> int \<Rightarrow> string" where
  "top_cmd e count =
     (if platform_system e = ''Darwin''
      then ''ps aux | sort -rk 3 | head -'' @ str_int (count + 1) @ '' | tail -'' @ str_int count
      else ''ps aux --sort=-%cpu | head -'' @ str_int (count + 1) @ '' | tail -'' @ str_int count)"

definition get_top_processes :: "sys_env \<Rightarrow> int \<Rightarrow> process list" where
  "get_top_processes e count =
     (case shell e (top_cmd e count) of
        None \<Rightarrow> []
      | Some out \<Rightarrow>
          map (\<lambda>parts. \<lparr>user = parts ! 0, pid = parts ! 1, cpu = parts ! 2, mem = parts ! 3,
                        command = take 50 (join_space (drop 10 parts))\<rparr>)
            (filter (\<lambda>parts. length parts \<ge> 11)
               (map split_ws (split_sep newline (strip out)))))"

subsection \<open>check\_system\_health\<close>

record health_data =
  report_timestamp :: string
  cpu_usage :: rat
  memory_usage :: rat
  disk_usage :: rat
  top_processes :: "process list"
  alerts :: "string list"

definition cpu_alert :: "sys_env \<Rightarrow> rat \<Rightarrow> int \<Rightarrow> string" where
  "cpu_alert e v limit =
     ''CPU usage is HIGH: '' @ fmt_1f e v @ ''% (threshold: '' @ str_int limit @ ''%)''"

definition memory_alert :: "sys_env \<Rightarrow> rat \<Rightarrow> int \<Rightarrow> string" where
  "memory_alert e v limit =
     ''Memory usage is HIGH: '' @ fmt_1f e v @ ''% (threshold: '' @ str_int limit @ ''%)''"

definition disk_alert :: "sys_env \<Rightarrow> rat \<Rightarrow> int \<Rightarrow> string" where
  "disk_alert e v limit =
     ''Disk usage is HIGH: '' @ fmt_1f e v @ ''% (threshold: '' @ str_int limit @ ''%)''"

text \<open>
  \<open>thresholds['cpu']\<close> raises \<open>KeyError\<close> when the key is missing; the three subscripts
  are evaluated in the order cpu, memory, disk.
\<close>

definition check_system_health :: "sys_env \<Rightarrow> (string \<rightharpoonup> int) \<Rightarrow> py_error + health_data" where
  "check_system_health e thresholds =
     (let cpu_usage = get_cpu_usage e;
          memory_usage = get_memory_usage e;
          disk_usage = get_disk_usage e;
          top_processes = get_top_processes e 5
      in case thresholds ''cpu'' of
           None \<Rightarrow> Inl KeyError
         | Some cpu_limit \<Rightarrow>
             (case thresholds ''memory'' of
                None \<Rightarrow> Inl KeyError
              | Some memory_limit \<Rightarrow>
                  (case thresholds ''disk'' of
                     None \<Rightarrow> Inl KeyError
                   | Some disk_limit \<Rightarrow>
                       Inr \<lparr>report_timestamp = sys_now e,
                            cpu_usage = cpu_usage,
                            memory_usage = memory_usage,
                            disk_usage = disk_usage,
                            top_processes = top_processes,
                            alerts =
                              (if cpu_usage > of_int cpu_limit
                               then [cpu_alert e cpu_usage cpu_limit] else [])
                              @ (if memory_usage > of_int memory_limit
                                 then [memory_alert e memory_usage memory_limit] else [])
                              @ (if disk_usage > of_int disk_limit
                                 then [disk_alert e disk_usage disk_limit] else [])\<rparr>)))"

subsection \<open>parse\_thresholds\<close>

text \<open>
  One pass of the loop body on \<open>pair\<close>: the key and the value to store, or \<open>None\<close> for the
  \<open>ValueError\<close> of the unpacking (not exactly one \<open>=\<close>) or of \<open>int\<close>.
\<close>

definition parse_pair :: "string \<Rightarrow> (string \<times> int) option" where
  "parse_pair pair =
     (case split_sep (CHR ''='') pair of
        [key, val] \<Rightarrow> (case py_int (strip val) of None \<Rightarrow> None | Some v \<Rightarrow> Some (strip key, v))
      | _ \<Rightarrow> None)"

fun parse_pairs :: "string list \<Rightarrow> (string \<rightharpoonup> int) \<Rightarrow> py_error + (string \<rightharpoonup> int)" where
  "parse_pairs [] thresholds = Inr thresholds"
| "parse_pairs (pair # pairs) thresholds =
     (case parse_pair pair of
        None \<Rightarrow> Inl ValueError
      | Some (key, v) \<Rightarrow> parse_pairs pairs (thresholds(key \<mapsto> v)))"

text \<open>The argument is \<open>None\<close> when the option is absent from the command line.\<close>

definition parse_thresholds :: "string option \<Rightarrow> py_error + (string \<rightharpoonup> int)" where
  "parse_thresholds threshold_str =
     (case threshold_str of
        None \<Rightarrow> Inr DEFAULT_THRESHOLDS
      | Some s \<Rightarrow>
          if s = [] then Inr DEFAULT_THRESHOLDS
          else parse_pairs (split_sep (CHR '','') s) DEFAULT_THRESHOLDS)"

section \<open>Notions and sample environments used to state the properties\<close>

text \<open>ASCII lower case, and "the text mentions the phrase" read without regard to case.\<close>

definition lower_chr :: "char \<Rightarrow> char" where
  "lower_chr c =
     (case map_of (zip ''ABCDEFGHIJKLMNOPQRSTUVWXYZ'' ''abcdefghijklmnopqrstuvwxyz'') c of
        Some l \<Rightarrow> l | None \<Rightarrow> c)"

definition mentions :: "string \<Rightarrow> string \<Rightarrow> bool" where
  "mentions phrase s = sublist phrase (map lower_chr s)"

text \<open>
  A sample environment: the first seven calls of curl print the texts of
  \<open>demo_outputs\<close>, the eighth runs into the timeout, every later one cannot be started.
\<close>

definition demo_outputs :: "string list" where
  "demo_outputs = [''200'', ''301'', ''404'' @ [newline], ''503'', ''000'', '''', ''abc'']"

definition demo_env :: env where
  "demo_env =
     \<lparr>run = (\<lambda>k cmd t. if k < 7 then Completed (demo_outputs ! k)
                       else if k = 7 then TimeoutExpired
                       else Raised ''[Errno 2] No such file or directory: curl''),
      now = (\<lambda>k. ''2024-01-01 00:00:00''),
      read_file = (\<lambda>f. FileNotFoundError),
      help_text = ''usage''\<rparr>"

text \<open>Two sites: the first check is answered with 200, every later one with 503.\<close>

definition two_sites_env :: env where
  "two_sites_env =
     demo_env\<lparr>run := (\<lambda>k cmd t. if k = 0 then Completed ''200'' else Completed ''503'')\<rparr>"

text \<open>No site can be reached: curl prints the code 000.\<close>

definition unreachable_env :: env where
  "unreachable_env = demo_env\<lparr>run := (\<lambda>k cmd t. Completed ''000'')\<rparr>"

text \<open>A command line that asks for continuous mode with two URLs.\<close>

definition two_url_args :: args where
  "two_url_args =
     \<lparr>args_urls = [''https://good.example'', ''https://bad.example''], args_file = None,
      args_continuous = True, args_interval = 60, args_timeout = 5\<rparr>"

text \<open>The same request with the two URLs in a file.\<close>

definition file_args :: args where
  "file_args =
     \<lparr>args_urls = [], args_file = Some ''urls.txt'',
      args_continuous = True, args_interval = 60, args_timeout = 5\<rparr>"

definition file_env :: "string \<Rightarrow> env" where
  "file_env text = demo_env\<lparr>read_file := (\<lambda>f. Contents text)\<rparr>"

text \<open>The events that start a probe.\<close>

definition is_spawn :: "event \<Rightarrow> bool" where
  "is_spawn ev = (case ev of Spawn cmd t \<Rightarrow> True | _ \<Rightarrow> False)"

text \<open>
  A sample host: Linux, \<open>top\<close> reports 81.5 percent CPU, /proc/meminfo gives a memory
  usage of exactly 80 percent, \<open>df\<close> reports 45 percent. The interpreter's
  floating-point services are given on the texts and values that occur.
\<close>

definition demo_float :: "string \<Rightarrow> rat option" where
  "demo_float s =
     map_of [(''81.5'', 163 / 2), (''45'', 45), (''0.52'', 1170935903116329 / 2251799813685248), (''7.5'', 15 / 2),
             (''0.0'', 0), (''0'', 0)] s"

definition demo_fmt :: "rat \<Rightarrow> string" where
  "demo_fmt x = (if x = 163 / 2 then ''81.5'' else if x = 80 then ''80.0''
                 else if x = 45 then ''45.0'' else ''0.0'')"

definition demo_meminfo :: string where
  "demo_meminfo = ''MemTotal:       1000 kB'' @ [newline] @ ''MemFree:         100 kB''
     @ [newline] @ ''MemAvailable:    200 kB'' @ [newline]"

definition demo_host :: sys_env where
  "demo_host =
     \<lparr>platform_system = ''Linux'',
      shell = (\<lambda>cmd. if cmd = cpu_cmd_linux then Some (''81.5'' @ [newline])
                      else if cmd = disk_cmd then Some (''45'' @ [newline])
                      else Some ''''),
      open_read = (\<lambda>path. if path = ''/proc/meminfo'' then Some demo_meminfo else None),
      sys_now = ''2024-01-01 00:00:00'',
      float_of = demo_float,
      round_2 = (\<lambda>x. x),
      fmt_1f = demo_fmt\<rparr>"

text \<open>A host where \<open>top\<close> prints nothing usable and /proc/loadavg has the given text.\<close>

definition loadavg_host :: "string \<Rightarrow> sys_env" where
  "loadavg_host body =
     demo_host\<lparr>shell := (\<lambda>cmd. Some []),
               open_read := (\<lambda>path. if path = ''/proc/loadavg'' then Some body else None)\<rparr>"

text \<open>A host where no command can be run and no file can be read.\<close>

definition dead_host :: sys_env where
  "dead_host = demo_host\<lparr>shell := (\<lambda>cmd. None), open_read := (\<lambda>path. None)\<rparr>"

text \<open>A healthy idle host: every probe succeeds and measures 0.\<close>

definition idle_meminfo :: string where
  "idle_meminfo = ''MemTotal:       1000 kB'' @ [newline] @ ''MemAvailable:   1000 kB''
     @ [newline]"

definition idle_host :: sys_env where
  "idle_host =
     demo_host\<lparr>shell := (\<lambda>cmd. if cmd = cpu_cmd_linux then Some (''0.0'' @ [newline])
                              else if cmd = disk_cmd then Some (''0'' @ [newline])
                              else Some []),
               open_read := (\<lambda>path. if path = ''/proc/meminfo'' then Some idle_meminfo
                                      else None)\<rparr>"

text \<open>
  A thresholds string as it is written: the items \<open>key=value\<close>, with the value in
  decimal, separated by commas.
\<close>

definition item :: "string \<times> int \<Rightarrow> string" where
  "item kv = fst kv @ ''='' @ str_int (snd kv)"

fun render_pairs :: "(string \<times> int) list \<Rightarrow> string" where
  "render_pairs [] = []"
| "render_pairs [(k, v)] = k @ ''='' @ str_int v"
| "render_pairs ((k, v) # kv # kvs) = k @ ''='' @ str_int v @ '','' @ render_pairs (kv # kvs)"

text \<open>
  A macOS host where \<open>top\<close> prints nothing usable; it has no /proc file system.
\<close>

definition mac_host :: sys_env where
  "mac_host =
     demo_host\<lparr>platform_system := ''Darwin'', shell := (\<lambda>cmd. Some []),
               open_read := (\<lambda>path. None)\<rparr>"

section \<open>Auxiliary lemmas\<close>

lemmas text_simps = strip_def lstrip_def rstrip_def isspace_def isdigit_def isdigit_chr_def
  digits_value_def digit_val_def str_int_def str_nat.simps digit_chr_def

text \<open>
  Sample values of the floating-point arithmetic, as Python computes them: the doubles
  read from 0.01, 3.2, 0.52 and 7.5 times 25, 800 / 1000 times 100, and the doubles
  nearest to some fractions.
\<close>

lemma round_double_zero: "round_double 0 = 0"
  by (simp add: round_double_def)

lemma double_samples:
  "round_double (5764607523034235 / 576460752303423488 * 25) = 1 / 4"
  "round_double (3602879701896397 / 1125899906842624 * 25) = 80"
  "round_double (1170935903116329 / 2251799813685248 * 25) = 13"
  "round_double (15 / 2 * 25) = 375 / 2"
  "round_double (round_double (4 / 5) * 100) = 80"
  "round_double (1 / 10) = 3602879701896397 / 36028797018963968"
  "round_double (1 / 3) = 6004799503160661 / 18014398509481984"
  "round_double (- (1 / 10)) = - (3602879701896397 / 36028797018963968)"
  "round_double (1 / 4) = 1 / 4"
  "round_double 100 = 100"
  by code_simp+

text \<open>
  \<open>bit_length\<close> is the number of binary digits, so \<open>ilog2 x\<close> is the exponent of the
  power of two at or below a positive \<open>x\<close>.
\<close>

lemma bit_length_pos: "0 < n \<Longrightarrow> bit_length n = Suc (bit_length (n div 2))"
  by (subst bit_length.simps) simp

lemma bit_length_bounds:
  "0 < n \<Longrightarrow> 2 ^ (bit_length n - 1) \<le> n \<and> n < 2 ^ bit_length n"
proof (induction n rule: less_induct)
  case (less n)
  show ?case
  proof (cases "n div 2 = 0")
    case True
    with less.prems have n: "n = 1"
      by (simp add: div_eq_0_iff)
    have "bit_length (Suc 0) = Suc 0"
      by (simp add: bit_length_pos) (subst bit_length.simps, simp)
    with n show ?thesis by simp
  next
    case False
    then have pos: "0 < n div 2" by simp
    have lt: "n div 2 < n" using less.prems by simp
    from less.IH [OF lt pos]
    have ih: "2 ^ (bit_length (n div 2) - 1) \<le> n div 2" "n div 2 < 2 ^ bit_length (n div 2)"
      by simp_all
    obtain m where m: "bit_length (n div 2) = Suc m"
      using bit_length_pos [OF pos] by simp
    have b: "bit_length n = Suc (Suc m)"
      using bit_length_pos [OF less.prems] m by simp
    from ih have "2 ^ m \<le> n div 2" "n div 2 < 2 * 2 ^ m"
      by (simp_all add: m)
    then have "2 * 2 ^ m \<le> n" "n < 2 * (2 * 2 ^ m)"
      by linarith+
    then show ?thesis
      by (simp add: b)
  qed
qed

lemma pow2_add1: "pow2 (e + 1) = 2 * pow2 e"
proof -
  consider "0 \<le> e" | "e = - 1" | "e < - 1" by linarith
  then show ?thesis
  proof cases
    case 1
    then show ?thesis by (simp add: pow2_def nat_add_distrib)
  next
    case 2
    then show ?thesis by (simp add: pow2_def)
  next
    case 3
    then have "nat (- e) = Suc (nat (- (e + 1)))" by simp
    with 3 show ?thesis by (simp add: pow2_def)
  qed
qed

lemma pow2_pos: "0 < pow2 e"
  by (simp add: pow2_def)

lemma ilog2_bounds:
  assumes "0 < x"
  shows "pow2 (ilog2 x) \<le> x \<and> x < pow2 (ilog2 x + 1)"
proof (cases "1 \<le> x")
  case True
  define n where "n = nat \<lfloor>x\<rfloor>"
  have n: "0 < n" "of_nat n \<le> x" "x < of_nat n + 1"
    using True by (simp_all add: n_def) linarith+
  from bit_length_bounds [OF n(1)]
  have bb: "2 ^ (bit_length n - 1) \<le> n" "n < 2 ^ bit_length n" by simp_all
  obtain m where m: "bit_length n = Suc m"
    using bit_length_pos [OF n(1)] by simp
  have lo: "(2::rat) ^ m \<le> x"
  proof -
    from bb(1) have "(2::nat) ^ m \<le> n" by (simp add: m)
    then have "(of_nat (2 ^ m) :: rat) \<le> of_nat n" by (simp only: of_nat_le_iff)
    then have "(2::rat) ^ m \<le> of_nat n" by simp
    with n(2) show ?thesis by linarith
  qed
  have hi: "x < (2::rat) ^ Suc m"
  proof -
    from bb(2) have "n + 1 \<le> 2 ^ Suc m" by (simp add: m)
    then have "(of_nat (n + 1) :: rat) \<le> of_nat (2 ^ Suc m)" by (simp only: of_nat_le_iff)
    then have "of_nat n + 1 \<le> (2::rat) ^ Suc m" by simp
    with n(3) show ?thesis by linarith
  qed
  have e: "int (bit_length n) - 1 = int m" by (simp add: m)
  have p: "pow2 (int m) = 2 ^ m" "pow2 (int m + 1) = 2 ^ Suc m"
    by (simp_all add: pow2_def nat_add_distrib)
  from hi have "\<not> pow2 (int m + 1) \<le> x" by (simp add: p)
  then have "ilog2 x = int m"
    using True by (simp add: ilog2_def Let_def n_def [symmetric] e)
  with lo hi p show ?thesis by simp
next
  case False
  with assms have x1: "x < 1" "1 < 1 / x" by (simp_all add: field_simps)
  define n where "n = nat \<lfloor>1 / x\<rfloor>"
  have n: "0 < n" "of_nat n \<le> 1 / x" "1 / x < of_nat n + 1"
    using x1 by (simp_all add: n_def) linarith+
  from bit_length_bounds [OF n(1)]
  have bb: "2 ^ (bit_length n - 1) \<le> n" "n < 2 ^ bit_length n" by simp_all
  obtain m where m: "bit_length n = Suc m"
    using bit_length_pos [OF n(1)] by simp
  have lo: "(2::rat) ^ m \<le> 1 / x"
  proof -
    from bb(1) have "(2::nat) ^ m \<le> n" by (simp add: m)
    then have "(of_nat (2 ^ m) :: rat) \<le> of_nat n" by (simp only: of_nat_le_iff)
    then have "(2::rat) ^ m \<le> of_nat n" by simp
    with n(2) show ?thesis by linarith
  qed
  have hi: "1 / x < (2::rat) ^ Suc m"
  proof -
    from bb(2) have "n + 1 \<le> 2 ^ Suc m" by (simp add: m)
    then have "(of_nat (n + 1) :: rat) \<le> of_nat (2 ^ Suc m)" by (simp only: of_nat_le_iff)
    then have "of_nat n + 1 \<le> (2::rat) ^ Suc m" by simp
    with n(3) show ?thesis by linarith
  qed
  from lo assms have up: "x \<le> 1 / 2 ^ m"
    by (simp add: field_simps)
  from hi assms have dn: "1 / 2 ^ Suc m < x"
    by (simp add: field_simps)
  define e where "e = - int (Suc m)"
  have "nat (int m + 1) = Suc m" by simp
  then have p: "pow2 e = 1 / 2 ^ Suc m"
    by (simp add: pow2_def e_def)
  have p1: "pow2 (e + 1) = 1 / 2 ^ m"
    by (simp only: pow2_add1 p) simp
  have p2: "pow2 (e + 1 + 1) = 2 / 2 ^ m"
    by (simp only: pow2_add1 p) simp
  have ee: "- int (bit_length n) = e"
    by (simp add: e_def m)
  have il: "ilog2 x = (if pow2 (e + 1) \<le> x then e + 1 else e)"
    using False by (simp only: ilog2_def Let_def n_def [symmetric] ee if_False)
  show ?thesis
  proof (cases "pow2 (e + 1) \<le> x")
    case True
    with up have "x = 1 / 2 ^ m" by (simp add: p1)
    then have "x < 2 / 2 ^ m" by (simp add: field_simps)
    with True il p2 show ?thesis by simp
  next
    case False
    then have "x < pow2 (e + 1)" by simp
    with False il dn p show ?thesis by simp
  qed
qed

text \<open>
  \<open>round_double x\<close> is a multiple of the spacing of the doubles around \<open>x\<close>, at most half
  a spacing away from \<open>x\<close>.
\<close>

lemma round_half_even_near: "\<bar>of_int (round_half_even y) - y\<bar> \<le> 1 / 2"
proof -
  define f where "f = \<lfloor>y\<rfloor>"
  have b: "of_int f \<le> y" "y < of_int f + 1"
    unfolding f_def by linarith+
  have r: "round_half_even y =
      (if y - of_int f < 1 / 2 then f else if 1 / 2 < y - of_int f then f + 1
       else if even f then f else f + 1)"
    by (simp only: round_half_even_def Let_def f_def)
  consider "y - of_int f < 1 / 2" | "1 / 2 < y - of_int f" | "y - of_int f = 1 / 2"
    by linarith
  then show ?thesis
  proof cases
    case 1
    then have "round_half_even y = f" by (simp only: r if_True)
    with 1 b show ?thesis by simp
  next
    case 2
    then have "round_half_even y = f + 1" by (simp only: r) simp
    with 2 b show ?thesis by simp
  next
    case 3
    then have "round_half_even y = f \<or> round_half_even y = f + 1"
      by (simp only: r) simp
    with 3 b show ?thesis by auto
  qed
qed

lemma round_double_near:
  "\<bar>round_double x - x\<bar> \<le> pow2 (max (ilog2 \<bar>x\<bar>) (- 1022) - 52) / 2"
proof (cases "x = 0")
  case True
  then show ?thesis
    using pow2_pos [of "max (ilog2 \<bar>x\<bar>) (- 1022) - 52"] by (simp add: round_double_def)
next
  case False
  define u where "u = pow2 (max (ilog2 \<bar>x\<bar>) (- 1022) - 52)"
  have u: "0 < u" by (simp add: u_def pow2_pos)
  have "round_double x - x = (of_int (round_half_even (x / u)) - x / u) * u"
    using False u by (simp add: round_double_def Let_def u_def [symmetric] algebra_simps)
  then have "\<bar>round_double x - x\<bar> = \<bar>of_int (round_half_even (x / u)) - x / u\<bar> * u"
    using u by (simp add: abs_mult)
  also have "\<dots> \<le> (1 / 2) * u"
    using round_half_even_near [of "x / u"] u by (intro mult_right_mono) simp_all
  finally show ?thesis by (simp add: u_def)
qed

lemma mentions_prefix:
  assumes "prefix phrase (map lower_chr s)"
  shows "mentions phrase (s @ t)"
proof -
  from assms obtain zs where zs: "map lower_chr s = phrase @ zs"
    by (auto simp: prefix_def)
  have "map lower_chr (s @ t) = [] @ phrase @ (zs @ map lower_chr t)"
    by (simp add: zs)
  then show ?thesis
    unfolding mentions_def sublist_def by blast
qed

lemma demo_run: "k < 7 \<Longrightarrow> run demo_env k cmd t = Completed (demo_outputs ! k)"
  by (simp add: demo_env_def)

lemma demo_strip:
  "strip (demo_outputs ! 0) = ''200''" "strip (demo_outputs ! 1) = ''301''"
  "strip (demo_outputs ! 2) = ''404''" "strip (demo_outputs ! 3) = ''503''"
  "strip (demo_outputs ! 4) = ''000''" "strip (demo_outputs ! 5) = ''''"
  "strip (demo_outputs ! 6) = ''abc''"
  by (simp_all add: demo_outputs_def text_simps)

lemma str_nat_small:
  "str_nat 0 = ''0''" "str_nat (Suc 0) = ''1''" "str_nat (Suc (Suc 0)) = ''2''"
  by (subst str_nat.simps, simp add: digit_chr_def)+

lemma check_health_completed:
  assumes "run e k (curl_cmd u t) (t + 2) = Completed out" and "isdigit (strip out)"
  shows "check_application_health e k u t =
           ([Spawn (curl_cmd u t) (t + 2)],
            \<lparr>url = u, status = fst (classify_code (digits_value (strip out))),
             status_code = Code (digits_value (strip out)),
             message = snd (classify_code (digits_value (strip out))),
             timestamp = now e k\<rparr>)"
  using assms
  by (simp add: check_application_health_def Let_def isdigit_def split: prod.splits)

lemma count_partition:
  "up_count results + down_count results
     + length (filter (\<lambda>r. status r = UNKNOWN) results) = length results"
proof (induction results)
  case Nil
  then show ?case by (simp add: up_count_def down_count_def)
next
  case (Cons r rs)
  then show ?case
    by (cases "status r") (simp_all add: up_count_def down_count_def)
qed

lemma check_multiple_urls_shape:
  "check_multiple_urls e urls t =
     ([Print rule70, Print ''APPLICATION HEALTH CHECK REPORT'', Print rule70]
        @ fst (check_each e 0 urls t)
        @ [Print rule70, Print (summary_line (snd (check_each e 0 urls t))), Print rule70],
      snd (check_each e 0 urls t))"
  by (simp add: check_multiple_urls_def split: prod.splits)

lemma strip_empty_iff: "strip l = [] \<longleftrightarrow> list_all isspace l"
proof -
  have "strip l = [] \<longleftrightarrow> list_all isspace (dropWhile isspace l)"
    by (simp add: strip_def rstrip_def lstrip_def dropWhile_eq_Nil_conv list_all_iff)
  also have "\<dots> \<longleftrightarrow> dropWhile isspace l = []"
  proof
    assume a: "list_all isspace (dropWhile isspace l)"
    show "dropWhile isspace l = []"
    proof (rule ccontr)
      assume n: "dropWhile isspace l \<noteq> []"
      then have "\<not> isspace (hd (dropWhile isspace l))"
        by (rule hd_dropWhile)
      moreover from a n have "isspace (hd (dropWhile isspace l))"
        by (cases "dropWhile isspace l") simp_all
      ultimately show False by simp
    qed
  next
    assume e: "dropWhile isspace l = []"
    show "list_all isspace (dropWhile isspace l)"
      unfolding e by simp
  qed
  also have "\<dots> \<longleftrightarrow> list_all isspace l"
    by (simp add: dropWhile_eq_Nil_conv list_all_iff)
  finally show ?thesis .
qed

lemma strip_outer:
  assumes "strip l \<noteq> []"
  shows "\<not> isspace (hd (strip l)) \<and> \<not> isspace (last (strip l))"
proof -
  let ?m = "dropWhile isspace l"
  let ?r = "dropWhile isspace (rev ?m)"
  have s: "strip l = rev ?r"
    by (simp add: strip_def rstrip_def lstrip_def)
  with assms have r: "?r \<noteq> []" by simp
  have m: "?m \<noteq> []"
  proof
    assume e: "?m = []"
    have "?r = []" unfolding e by simp
    with r show False by simp
  qed
  have "\<not> isspace (hd ?r)"
    using r by (rule hd_dropWhile)
  then have last_ok: "\<not> isspace (last (strip l))"
    using r by (simp add: s last_rev)
  have "\<not> isspace (hd ?m)"
    using m by (rule hd_dropWhile)
  moreover have "hd (rev ?r) = hd ?m"
  proof -
    obtain ys where ys: "rev ?m = ys @ ?r"
      by (metis takeWhile_dropWhile_id)
    then have "?m = rev ?r @ rev ys"
      by (metis rev_append rev_rev_ident)
    then show ?thesis
      using r by (metis hd_append2 rev_is_Nil_conv)
  qed
  ultimately show ?thesis
    using last_ok by (simp add: s)
qed

lemma concat_file_lines: "concat (file_lines body) = body"
  by (induction body) (auto split: list.splits)

lemma alert_prefixes:
  "prefix ''CPU usage is HIGH'' (cpu_alert e v l)"
  "\<not> prefix ''CPU usage is HIGH'' (memory_alert e v l)"
  "\<not> prefix ''CPU usage is HIGH'' (disk_alert e v l)"
  "\<not> prefix ''Memory usage is HIGH'' (cpu_alert e v l)"
  "prefix ''Memory usage is HIGH'' (memory_alert e v l)"
  "\<not> prefix ''Memory usage is HIGH'' (disk_alert e v l)"
  "\<not> prefix ''Disk usage is HIGH'' (cpu_alert e v l)"
  "\<not> prefix ''Disk usage is HIGH'' (memory_alert e v l)"
  "prefix ''Disk usage is HIGH'' (disk_alert e v l)"
  by (simp_all add: cpu_alert_def memory_alert_def disk_alert_def)

lemma demo_cpu: "get_cpu_usage demo_host = 163 / 2"
  by (simp add: get_cpu_usage_def cpu_primary_def demo_host_def demo_float_def
      strip_def lstrip_def rstrip_def isspace_def)

lemma demo_disk: "get_disk_usage demo_host = 45"
  by (simp add: get_disk_usage_def demo_host_def demo_float_def disk_cmd_def cpu_cmd_linux_def
      strip_def lstrip_def rstrip_def isspace_def)

lemma demo_meminfo_fields:
  "meminfo_field (file_lines demo_meminfo) ''MemTotal'' = Some 1000"
  "meminfo_field (file_lines demo_meminfo) ''MemAvailable'' = Some 200"
  by (simp_all add: meminfo_field_def demo_meminfo_def index_def sublist_code split_ws_def
      py_int_def strip_def lstrip_def rstrip_def isspace_def isdigit_chr_def
      digits_value_def digit_val_def)

lemma demo_memory: "get_memory_usage demo_host = 80"
proof -
  have "memory_measure demo_host = Some 80"
    by (simp add: memory_measure_def demo_host_def demo_meminfo_fields Let_def double_samples)
  then show ?thesis
    by (simp add: get_memory_usage_def)
qed

lemma cpu_primary_None_iff:
  "cpu_primary e = None \<longleftrightarrow>
     (let cmd = (if platform_system e = ''Darwin'' then cpu_cmd_darwin else cpu_cmd_linux)
      in shell e cmd = None \<or> (\<exists>out. shell e cmd = Some out \<and> float_of e (strip out) = None))"
  by (auto simp add: cpu_primary_def Let_def split: option.splits)

lemma loadavg_primary: "cpu_primary (loadavg_host body) = None"
  by (simp add: cpu_primary_def loadavg_host_def demo_host_def demo_float_def
      strip_def lstrip_def rstrip_def)

lemma idle_values:
  "get_cpu_usage idle_host = 0" "get_disk_usage idle_host = 0"
  by (simp_all add: get_cpu_usage_def cpu_primary_def get_disk_usage_def idle_host_def
      demo_host_def demo_float_def disk_cmd_def cpu_cmd_linux_def
      strip_def lstrip_def rstrip_def isspace_def)

lemma idle_meminfo_fields:
  "meminfo_field (file_lines idle_meminfo) ''MemTotal'' = Some 1000"
  "meminfo_field (file_lines idle_meminfo) ''MemAvailable'' = Some 1000"
  by (simp_all add: meminfo_field_def idle_meminfo_def index_def sublist_code split_ws_def
      py_int_def strip_def lstrip_def rstrip_def isspace_def isdigit_chr_def
      digits_value_def digit_val_def)

lemma idle_memory: "get_memory_usage idle_host = 0"
proof -
  have "memory_measure idle_host = Some 0"
    by (simp add: memory_measure_def idle_host_def demo_host_def idle_meminfo_fields Let_def
        round_double_zero)
  then show ?thesis
    by (simp add: get_memory_usage_def)
qed

lemma idle_processes: "get_top_processes idle_host 5 = []"
  by (simp add: get_top_processes_def idle_host_def demo_host_def top_cmd_def
      cpu_cmd_linux_def disk_cmd_def strip_def lstrip_def rstrip_def split_ws_def)

lemma dead_values:
  "get_cpu_usage dead_host = 0" "get_memory_usage dead_host = 0"
  "get_disk_usage dead_host = 0" "get_top_processes dead_host 5 = []"
  by (simp_all add: get_cpu_usage_def cpu_primary_def cpu_fallback_def get_memory_usage_def
      memory_measure_def get_disk_usage_def get_top_processes_def dead_host_def demo_host_def)

lemma split_sep_no_sep: "sep \<notin> set a \<Longrightarrow> split_sep sep a = [a]"
  by (induction a) auto

lemma split_sep_append:
  "sep \<notin> set a \<Longrightarrow> split_sep sep (a @ sep # b) = a # split_sep sep b"
  by (induction a) auto

lemma parse_pair_key_value:
  assumes "CHR ''='' \<notin> set key" and "CHR ''='' \<notin> set val"
  shows "parse_pair (key @ ''='' @ val)
           = (case py_int (strip val) of None \<Rightarrow> None | Some v \<Rightarrow> Some (strip key, v))"
  using assms by (simp add: parse_pair_def split_sep_append split_sep_no_sep)

lemma parse_pairs_eq:
  "parse_pairs ps th =
     (if list_all (\<lambda>p. parse_pair p \<noteq> None) ps
      then Inr (th ++ map_of (rev (List.map_filter parse_pair ps)))
      else Inl ValueError)"
proof (induction ps arbitrary: th)
  case Nil
  then show ?case by (simp add: List.map_filter_simps)
next
  case (Cons p ps)
  show ?case
  proof (cases "parse_pair p")
    case None
    then show ?thesis by simp
  next
    case (Some kv)
    obtain k v where kv: "kv = (k, v)" by (cases kv)
    have step: "parse_pairs (p # ps) th = parse_pairs ps (th(k \<mapsto> v))"
      using Some kv by simp
    have mf: "List.map_filter parse_pair (p # ps) = (k, v) # List.map_filter parse_pair ps"
      using Some kv by (simp add: List.map_filter_simps)
    have la: "list_all (\<lambda>p. parse_pair p \<noteq> None) (p # ps)
        = list_all (\<lambda>p. parse_pair p \<noteq> None) ps"
      using Some by simp
    have e: "th(k \<mapsto> v) ++ map_of (rev (List.map_filter parse_pair ps))
        = th ++ map_of (rev ((k, v) # List.map_filter parse_pair ps))"
      by (simp add: map_add_def fun_eq_iff split: option.splits)
    show ?thesis
      unfolding step mf la Cons.IH [of "th(k \<mapsto> v)"] e ..
  qed
qed

text \<open>
  Every integer from 0 on is the value of an output that passes the digit test: the
  decimal text of the integer itself.
\<close>

lemma digit_chr_props:
  assumes "m < 10"
  shows "isdigit_chr (digit_chr m) \<and> digit_val (digit_chr m) = int m"
proof -
  from assms have "m \<in> {0, 1, 2, 3, 4, 5, 6, 7, 8, 9}"
    by auto
  then show ?thesis
    by (auto simp add: digit_chr_def isdigit_chr_def digit_val_def)
qed

lemma digits_value_snoc: "digits_value (s @ [c]) = 10 * digits_value s + digit_val c"
  by (simp add: digits_value_def)

lemma str_nat_roundtrip: "isdigit (str_nat n) \<and> digits_value (str_nat n) = int n"
proof (induction n rule: str_nat.induct)
  case (1 n)
  show ?case
  proof (cases "n < 10")
    case True
    then show ?thesis
      using digit_chr_props [of n]
      by (subst (1 2) str_nat.simps) (simp add: isdigit_def digits_value_def)
  next
    case False
    have m: "n mod 10 < 10" by simp
    from False 1 have ih: "isdigit (str_nat (n div 10))"
      "digits_value (str_nat (n div 10)) = int (n div 10)"
      by simp_all
    have "str_nat n = str_nat (n div 10) @ [digit_chr (n mod 10)]"
      using False by (subst str_nat.simps) simp
    then show ?thesis
      using ih digit_chr_props [OF m]
      by (simp add: digits_value_snoc isdigit_def zdiv_int zmod_int)
  qed
qed

lemma dropWhile_id: "s \<noteq> [] \<Longrightarrow> \<not> P (hd s) \<Longrightarrow> dropWhile P s = s"
  by (cases s) simp_all

lemma strip_id:
  assumes "\<not> isspace (hd s)" and "\<not> isspace (last s)" and "s \<noteq> []"
  shows "strip s = s"
proof -
  have "dropWhile isspace s = s"
    using assms by (simp add: dropWhile_id)
  moreover have "dropWhile isspace (rev s) = rev s"
    using assms by (simp add: dropWhile_id hd_rev)
  ultimately show ?thesis
    by (simp add: strip_def lstrip_def rstrip_def)
qed

lemma every_code_can_be_returned:
  assumes "0 \<le> c"
  shows "isdigit (strip (str_int c)) \<and> digits_value (strip (str_int c)) = c"
proof -
  have d: "isdigit (str_nat (nat c))" "digits_value (str_nat (nat c)) = c"
    using str_nat_roundtrip [of "nat c"] assms by simp_all
  have ns: "\<not> isspace x" if "isdigit_chr x" for x
    using that by (auto simp add: isdigit_chr_def isspace_def Let_def)
  from d(1) have ne: "str_nat (nat c) \<noteq> []"
    and all: "\<forall>x\<in>set (str_nat (nat c)). isdigit_chr x"
    by (simp_all add: isdigit_def list_all_iff)
  from ne all have "isdigit_chr (hd (str_nat (nat c)))" "isdigit_chr (last (str_nat (nat c)))"
    by simp_all
  with ne have "\<not> isspace (hd (str_nat (nat c)))" "\<not> isspace (last (str_nat (nat c)))"
    "str_nat (nat c) \<noteq> []"
    by (simp_all add: ns)
  then have "strip (str_nat (nat c)) = str_nat (nat c)"
    by (rule strip_id)
  with d assms show ?thesis
    by (simp add: str_int_def)
qed

lemma digit_not_space: "isdigit_chr x \<Longrightarrow> \<not> isspace x"
  by (auto simp add: isdigit_chr_def isspace_def Let_def)

lemma digit_not_mark:
  "isdigit_chr x \<Longrightarrow> x \<noteq> CHR ''_'' \<and> x \<noteq> CHR ''-'' \<and> x \<noteq> CHR ''+''
     \<and> x \<noteq> CHR '','' \<and> x \<noteq> CHR ''=''"
  by (auto simp add: isdigit_chr_def)

lemma digits_body_ok: "s \<noteq> [] \<Longrightarrow> list_all isdigit_chr s \<Longrightarrow> int_body_ok s"
  by (induction s rule: int_body_ok.induct) (auto dest: digit_not_mark)

lemma digits_no_underscore: "list_all isdigit_chr s \<Longrightarrow> filter (\<lambda>c. c \<noteq> CHR ''_'') s = s"
  by (induction s) (auto dest: digit_not_mark)

lemma strip_digits: "isdigit s \<Longrightarrow> strip s = s"
proof -
  assume d: "isdigit s"
  then have ne: "s \<noteq> []" and all: "\<forall>x\<in>set s. isdigit_chr x"
    by (simp_all add: isdigit_def list_all_iff)
  from ne all have "isdigit_chr (hd s)" "isdigit_chr (last s)"
    by simp_all
  then show ?thesis
    using ne by (intro strip_id) (simp_all add: digit_not_space)
qed

lemma py_int_digits: "isdigit s \<Longrightarrow> py_int s = Some (digits_value s)"
proof -
  assume d: "isdigit s"
  then have ne: "s \<noteq> []" and all: "list_all isdigit_chr s"
    by (simp_all add: isdigit_def)
  from ne all have "isdigit_chr (hd s)"
    by (cases s) simp_all
  then have h: "hd s \<noteq> CHR ''-''" "hd s \<noteq> CHR ''+''"
    using digit_not_mark by blast+
  show ?thesis
    by (simp add: py_int_def strip_digits [OF d] h digits_body_ok [OF ne all]
        digits_no_underscore [OF all])
qed

lemma str_int_chars:
  "c \<in> set (str_int v) \<Longrightarrow> isdigit_chr c \<or> c = CHR ''-''"
  using str_nat_roundtrip [of "nat v"] str_nat_roundtrip [of "nat (- v)"]
  by (auto simp add: str_int_def isdigit_def list_all_iff split: if_splits)

lemma strip_str_int: "strip (str_int v) = str_int v"
proof (cases "v < 0")
  case False
  then show ?thesis
    using str_nat_roundtrip [of "nat v"] by (simp add: str_int_def strip_digits)
next
  case True
  let ?s = "str_nat (nat (- v))"
  have d: "isdigit ?s"
    using str_nat_roundtrip by blast
  then have ne: "?s \<noteq> []" and all: "\<forall>x\<in>set ?s. isdigit_chr x"
    by (simp_all add: isdigit_def list_all_iff)
  then have "isdigit_chr (last ?s)"
    by simp
  then have "\<not> isspace (last (CHR ''-'' # ?s))"
    using ne by (simp add: digit_not_space)
  moreover have "\<not> isspace (hd (CHR ''-'' # ?s))"
    by (simp add: isspace_def)
  ultimately have "strip (CHR ''-'' # ?s) = CHR ''-'' # ?s"
    by (intro strip_id) simp_all
  with True show ?thesis
    by (simp add: str_int_def)
qed

lemma py_int_str_int: "py_int (str_int v) = Some v"
proof (cases "v < 0")
  case False
  then show ?thesis
    using str_nat_roundtrip [of "nat v"] by (simp add: str_int_def py_int_digits)
next
  case True
  let ?s = "str_nat (nat (- v))"
  have d: "isdigit ?s" "digits_value ?s = - v"
    using str_nat_roundtrip [of "nat (- v)"] True by simp_all
  then have ne: "?s \<noteq> []" and all: "list_all isdigit_chr ?s"
    by (simp_all add: isdigit_def)
  have s: "strip (CHR ''-'' # ?s) = CHR ''-'' # ?s"
    using strip_str_int [of v] True by (simp add: str_int_def)
  have "py_int (CHR ''-'' # ?s) = Some v"
    by (simp add: py_int_def s digits_body_ok [OF ne all] digits_no_underscore [OF all] d)
  with True show ?thesis
    by (simp add: str_int_def)
qed

lemma max_time_curl_cmd: "max_time (curl_cmd u t) = Some t"
  by (simp add: curl_cmd_def py_int_str_int)

lemma render_pairs_Cons:
  "render_pairs (kv # kvs) = item kv @ (if kvs = [] then [] else '','' @ render_pairs kvs)"
  by (cases kv; cases kvs) (simp_all add: item_def)

lemma comma_not_in_item:
  assumes "CHR '','' \<notin> set (fst kv)"
  shows "CHR '','' \<notin> set (item kv)"
  using assms str_int_chars [of "CHR '',''" "snd kv"]
  by (auto simp add: item_def isdigit_chr_def)

lemma split_render:
  assumes "kvs \<noteq> []" and "list_all (\<lambda>kv. CHR '','' \<notin> set (fst kv)) kvs"
  shows "split_sep (CHR '','') (render_pairs kvs) = map item kvs"
  using assms
proof (induction kvs)
  case Nil
  then show ?case by simp
next
  case (Cons kv kvs)
  from Cons.prems have c: "CHR '','' \<notin> set (item kv)"
    by (simp add: comma_not_in_item)
  show ?case
  proof (cases "kvs = []")
    case True
    then show ?thesis
      using c by (simp add: render_pairs_Cons split_sep_no_sep)
  next
    case False
    with Cons have "split_sep (CHR '','') (render_pairs kvs) = map item kvs"
      by simp
    with False c show ?thesis
      by (simp add: render_pairs_Cons split_sep_append)
  qed
qed

lemma parse_item:
  assumes "CHR ''='' \<notin> set (fst kv)"
  shows "parse_pair (item kv) = Some (strip (fst kv), snd kv)"
proof -
  have "CHR ''='' \<notin> set (str_int (snd kv))"
    using str_int_chars [of "CHR ''=''" "snd kv"] by (auto simp add: isdigit_chr_def)
  from parse_pair_key_value [OF assms this] show ?thesis
    unfolding item_def
    by (simp add: strip_str_int py_int_str_int)
qed

lemma parse_items:
  assumes "list_all (\<lambda>kv. CHR ''='' \<notin> set (fst kv)) kvs"
  shows "list_all (\<lambda>p. parse_pair p \<noteq> None) (map item kvs)
       \<and> List.map_filter parse_pair (map item kvs) = map (\<lambda>kv. (strip (fst kv), snd kv)) kvs"
  using assms by (induction kvs) (simp_all add: parse_item)

lemma map_of_distinct_all:
  "distinct (map fst ps) \<Longrightarrow> list_all (\<lambda>(k, v). map_of (rev ps) k = Some v) ps"
  by (auto simp add: list_all_iff map_of_eq_Some_iff [of "rev ps"] rev_map [symmetric])


lemma curl_of_cmd:
  "0 \<le> t \<Longrightarrow> curl s (curl_cmd u t) =
     (case s of
        Answers d http_code \<Rightarrow>
          if t = 0 \<or> d \<le> of_int t then Exits d http_code else Exits (of_int t) ''000''
      | Silent \<Rightarrow> if t = 0 then Hangs else Exits (of_int t) ''000'')"
  by (simp add: curl_def max_time_curl_cmd)


section \<open>Classification of HTTP status codes\<close>

text \<open>
  C1. When curl's output, stripped, is a string of digits with value \<open>c\<close>, the verdict
  carries the code \<open>c\<close> and: for \<open>200 \<le> c < 300\<close> the status UP with the message
  "Application is functioning correctly"; for \<open>300 \<le> c < 400\<close> UP with the redirect
  message; for \<open>400 \<le> c < 500\<close> DOWN with the message "Client error (HTTP c)"; for
  \<open>500 \<le> c < 600\<close> DOWN with "Server error (HTTP c)"; for any other \<open>c\<close> UNKNOWN. When
  the stripped output is empty or not numeric, the verdict is DOWN with the code N/A and
  the message "Unable to connect or receive response". The messages of the source
  start with a capital letter, so "mentions" is read without regard to case.
\<close>

theorem classification_by_status_code:
  assumes "run e k (curl_cmd u t) (t + 2) = Completed out"
    and "sc = strip out" and "c = digits_value sc"
    and "v = snd (check_application_health e k u t)"
  shows "(isdigit sc \<and> 200 \<le> c \<and> c < 300 \<longrightarrow>
            status v = UP \<and> message v = ''Application is functioning correctly'')
       \<and> (isdigit sc \<and> 300 \<le> c \<and> c < 400 \<longrightarrow>
            status v = UP \<and> message v = ''Application is up (redirect)'')
       \<and> (isdigit sc \<and> 400 \<le> c \<and> c < 500 \<longrightarrow>
            status v = DOWN \<and> message v = ''Client error (HTTP '' @ str_int c @ '')''
            \<and> mentions ''client error'' (message v))
       \<and> (isdigit sc \<and> 500 \<le> c \<and> c < 600 \<longrightarrow>
            status v = DOWN \<and> message v = ''Server error (HTTP '' @ str_int c @ '')''
            \<and> mentions ''server error'' (message v))
       \<and> (isdigit sc \<and> (c < 200 \<or> 600 \<le> c) \<longrightarrow>
            status v = UNKNOWN \<and> message v = ''Unexpected status code: '' @ str_int c)
       \<and> (isdigit sc \<longrightarrow> status_code v = Code c)
       \<and> (\<not> isdigit sc \<longrightarrow>
            status v = DOWN \<and> status_code v = NA
            \<and> message v = ''Unable to connect or receive response'')"
proof -
  have numeric: "isdigit sc \<Longrightarrow> status v = fst (classify_code c)
      \<and> message v = snd (classify_code c) \<and> status_code v = Code c"
    using assms
    by (simp add: check_application_health_def Let_def isdigit_def split: prod.splits)
  have other: "\<not> isdigit sc \<Longrightarrow> status v = DOWN \<and> status_code v = NA
      \<and> message v = ''Unable to connect or receive response''"
    using assms by (auto simp add: check_application_health_def Let_def isdigit_def)
  have m4: "mentions ''client error'' (''Client error (HTTP '' @ str_int c @ '')'')"
    by (rule mentions_prefix) (simp add: lower_chr_def)
  have m5: "mentions ''server error'' (''Server error (HTTP '' @ str_int c @ '')'')"
    by (rule mentions_prefix) (simp add: lower_chr_def)
  show ?thesis
    using numeric other m4 m5 by (auto simp add: classify_code_def)
qed

theorem classification_by_status_code_witness:
  "(let v = snd (check_application_health demo_env 0 ''https://good.example'' 5)
    in status v = UP \<and> message v = ''Application is functioning correctly''
       \<and> status_code v = Code 200)
 \<and> (let v = snd (check_application_health demo_env 1 ''https://good.example'' 5)
    in status v = UP \<and> message v = ''Application is up (redirect)''
       \<and> status_code v = Code 301)
 \<and> (let v = snd (check_application_health demo_env 2 ''https://good.example'' 5)
    in status v = DOWN \<and> message v = ''Client error (HTTP 404)'' \<and> status_code v = Code 404
       \<and> mentions ''client error'' (message v))
 \<and> (let v = snd (check_application_health demo_env 3 ''https://good.example'' 5)
    in status v = DOWN \<and> message v = ''Server error (HTTP 503)'' \<and> status_code v = Code 503
       \<and> mentions ''server error'' (message v))
 \<and> (let v = snd (check_application_health demo_env 4 ''https://good.example'' 5)
    in status v = UNKNOWN \<and> message v = ''Unexpected status code: 0''
       \<and> status_code v = Code 0)
 \<and> (let v = snd (check_application_health demo_env 5 ''https://good.example'' 5)
    in status v = DOWN \<and> message v = ''Unable to connect or receive response''
       \<and> status_code v = NA)
 \<and> (let v = snd (check_application_health demo_env 6 ''https://good.example'' 5)
    in status v = DOWN \<and> message v = ''Unable to connect or receive response''
       \<and> status_code v = NA)"
proof -
  note th = classification_by_status_code [OF demo_run refl refl refl,
      where u = "''https://good.example''" and t = 5]
  have m: "mentions ''client error'' ''Client error (HTTP 404)''"
    "mentions ''server error'' ''Server error (HTTP 503)''"
    using mentions_prefix [of "''client error''" "''Client error''" "'' (HTTP 404)''"]
      mentions_prefix [of "''server error''" "''Server error''" "'' (HTTP 503)''"]
    by (simp_all add: lower_chr_def)
  show ?thesis
    using th [of 0] th [of 1] th [of 2] th [of 3] th [of 4] th [of 5] th [of 6] m
    unfolding demo_strip Let_def by (simp add: text_simps)
qed

section \<open>The timeout of a probe\<close>




text \<open>
  When it is curl's own limit that ends the transfer, \<open>subprocess.run\<close> returns
  normally with the output 000, and the verdict is the one of the numeric code 0.
\<close>

lemma limit_reached_is_unknown:
  assumes "1 \<le> t" and "sites k = Silent \<or> (\<exists>d c. sites k = Answers d c \<and> of_int t < d)"
  shows "snd (check_application_health (timed_env sites) k u t) =
           \<lparr>url = u, status = UNKNOWN, status_code = Code 0,
            message = ''Unexpected status code: 0'', timestamp = ''2024-01-01 00:00:00''\<rparr>
         \<and> probe_seconds (sites k) u t = of_int t"
proof -
  from assms have c: "curl (sites k) (curl_cmd u t) = Exits (of_int t) ''000''"
    by (auto simp add: curl_of_cmd)
  have z: "strip ''000'' = ''000''" "isdigit ''000''" "digits_value ''000'' = 0"
    "str_int 0 = ''0''"
    by (simp_all add: text_simps)
  have r: "run (timed_env sites) k (curl_cmd u t) (t + 2) = Completed ''000''"
    using assms(1) by (simp add: timed_env_def c subprocess_run_def)
  from check_health_completed [OF r] z
  have "snd (check_application_health (timed_env sites) k u t) =
           \<lparr>url = u, status = UNKNOWN, status_code = Code 0,
            message = ''Unexpected status code: 0'', timestamp = ''2024-01-01 00:00:00''\<rparr>"
    by (simp add: classify_code_def timed_env_def)
  moreover have "probe_seconds (sites k) u t = of_int t"
    using assms(1) by (simp add: probe_seconds_def c subprocess_run_def)
  ultimately show ?thesis ..
qed


section \<open>The report of a one-shot run\<close>

text \<open>
  C9. A one-shot run over two targets, where curl prints 200 for the first and 503 for
  the second, returns one UP and one DOWN verdict, and the report closes with the
  summary: a rule, the line "SUMMARY: 1 UP | 1 DOWN | Total: 2", and a closing rule.
\<close>

theorem one_up_one_down:
  assumes "run e 0 (curl_cmd u1 t) (t + 2) = Completed out1" and "strip out1 = ''200''"
    and "run e 1 (curl_cmd u2 t) (t + 2) = Completed out2" and "strip out2 = ''503''"
    and "r1 = \<lparr>url = u1, status = UP, status_code = Code 200,
                message = ''Application is functioning correctly'', timestamp = now e 0\<rparr>"
    and "r2 = \<lparr>url = u2, status = DOWN, status_code = Code 503,
                message = ''Server error (HTTP 503)'', timestamp = now e 1\<rparr>"
  shows "check_multiple_urls e [u1, u2] t =
           ([Print rule70, Print ''APPLICATION HEALTH CHECK REPORT'', Print rule70,
             Spawn (curl_cmd u1 t) (t + 2), Print (format_result r1),
             Spawn (curl_cmd u2 t) (t + 2), Print (format_result r2),
             Print rule70, Print ''SUMMARY: 1 UP | 1 DOWN | Total: 2'', Print rule70],
            [r1, r2])"
proof -
  have d: "isdigit ''200''" "isdigit ''503''" "digits_value ''200'' = 200"
    "digits_value ''503'' = 503" "str_int 503 = ''503''"
    by (simp_all add: text_simps)
  have c1: "check_application_health e 0 u1 t = ([Spawn (curl_cmd u1 t) (t + 2)], r1)"
    using check_health_completed [OF assms(1)] assms(2,5) by (simp add: d classify_code_def)
  have c2: "check_application_health e (Suc 0) u2 t = ([Spawn (curl_cmd u2 t) (t + 2)], r2)"
    using check_health_completed [of e 1 u2 t out2] assms(3,4,6) by (simp add: d classify_code_def)
  have s: "summary_line [r1, r2] = ''SUMMARY: 1 UP | 1 DOWN | Total: 2''"
    by (simp add: summary_line_def up_count_def down_count_def assms(5,6) str_nat_small)
  show ?thesis
    by (simp add: check_multiple_urls_def c1 c2 s)
qed

theorem one_up_one_down_witness:
  "map status (snd (check_multiple_urls two_sites_env
      [''https://good.example'', ''https://bad.example''] 5)) = [UP, DOWN]
   \<and> drop 7 (fst (check_multiple_urls two_sites_env
      [''https://good.example'', ''https://bad.example''] 5))
     = [Print rule70, Print ''SUMMARY: 1 UP | 1 DOWN | Total: 2'', Print rule70]"
proof -
  have s: "strip ''200'' = ''200''" "strip ''503'' = ''503''"
    by (simp_all add: text_simps)
  have r: "run two_sites_env 0 cmd1 t1 = Completed ''200''"
    "run two_sites_env 1 cmd2 t2 = Completed ''503''" for cmd1 cmd2 t1 t2
    by (simp_all add: two_sites_env_def)
  show ?thesis
    using one_up_one_down [OF r(1) s(1) r(2) s(2) refl refl,
        where ?u1.0 = "''https://good.example''" and t = 5
          and ?u2.0 = "''https://bad.example''"]
    by simp
qed


section \<open>What the summary counts\<close>

text \<open>
  C10. The summary counts the verdicts whose status is UP and those whose status is
  DOWN; a verdict with the status UNKNOWN is in the total and in neither count. So the
  two counts and the number of UNKNOWN verdicts add up to the total, and the two counts
  stay below the total exactly when some verdict is UNKNOWN. A probe whose numeric
  code is outside 200 to 599 gives such a run: 0 UP, 0 DOWN, total 1.
\<close>

theorem summary_counts:
  "up_count results + down_count results
      + length (filter (\<lambda>r. status r = UNKNOWN) results) = length results
   \<and> (list_ex (\<lambda>r. status r = UNKNOWN) results
        = (up_count results + down_count results < length results))
   \<and> (\<exists>evs. fst (check_multiple_urls e urls t)
          = evs @ [Print rule70,
                   Print (''SUMMARY: ''
                     @ str_nat (up_count (snd (check_multiple_urls e urls t))) @ '' UP | ''
                     @ str_nat (down_count (snd (check_multiple_urls e urls t)))
                     @ '' DOWN | Total: ''
                     @ str_nat (length (snd (check_multiple_urls e urls t)))),
                   Print rule70])
   \<and> (run e 0 (curl_cmd u t) (t + 2) = Completed out \<and> isdigit (strip out)
        \<and> (digits_value (strip out) < 200 \<or> 600 \<le> digits_value (strip out))
      \<longrightarrow> map status (snd (check_multiple_urls e [u] t)) = [UNKNOWN]
          \<and> up_count (snd (check_multiple_urls e [u] t)) = 0
          \<and> down_count (snd (check_multiple_urls e [u] t)) = 0
          \<and> length (snd (check_multiple_urls e [u] t)) = 1
          \<and> last (butlast (fst (check_multiple_urls e [u] t)))
              = Print ''SUMMARY: 0 UP | 0 DOWN | Total: 1'')"
proof -
  have a: "up_count results + down_count results
      + length (filter (\<lambda>r. status r = UNKNOWN) results) = length results"
    by (rule count_partition)
  have "list_ex (\<lambda>r. status r = UNKNOWN) results
          = (0 < length (filter (\<lambda>r. status r = UNKNOWN) results))"
    by (induction results) auto
  with a have b: "list_ex (\<lambda>r. status r = UNKNOWN) results
        = (up_count results + down_count results < length results)"
    by linarith
  have c: "\<exists>evs. fst (check_multiple_urls e urls t)
          = evs @ [Print rule70,
                   Print (''SUMMARY: ''
                     @ str_nat (up_count (snd (check_multiple_urls e urls t))) @ '' UP | ''
                     @ str_nat (down_count (snd (check_multiple_urls e urls t)))
                     @ '' DOWN | Total: ''
                     @ str_nat (length (snd (check_multiple_urls e urls t)))),
                   Print rule70]"
    by (simp add: check_multiple_urls_shape summary_line_def)
  have d: "map status (snd (check_multiple_urls e [u] t)) = [UNKNOWN]
          \<and> up_count (snd (check_multiple_urls e [u] t)) = 0
          \<and> down_count (snd (check_multiple_urls e [u] t)) = 0
          \<and> length (snd (check_multiple_urls e [u] t)) = 1
          \<and> last (butlast (fst (check_multiple_urls e [u] t)))
              = Print ''SUMMARY: 0 UP | 0 DOWN | Total: 1''"
    if h: "run e 0 (curl_cmd u t) (t + 2) = Completed out" "isdigit (strip out)"
      "digits_value (strip out) < 200 \<or> 600 \<le> digits_value (strip out)"
  proof -
    have st: "fst (classify_code (digits_value (strip out))) = UNKNOWN"
      using h(3) by (auto simp add: classify_code_def)
    show ?thesis
      by (simp add: check_multiple_urls_shape check_health_completed [OF h(1,2)] st
          summary_line_def up_count_def down_count_def str_nat_small)
  qed
  show ?thesis
    using a b c d by blast
qed

theorem summary_counts_witness:
  "map status (snd (check_multiple_urls unreachable_env [''https://gone.example''] 5))
     = [UNKNOWN]
   \<and> last (butlast (fst (check_multiple_urls unreachable_env [''https://gone.example''] 5)))
     = Print ''SUMMARY: 0 UP | 0 DOWN | Total: 1''"
proof -
  have r: "run unreachable_env 0 (curl_cmd ''https://gone.example'' 5) (5 + 2)
      = Completed ''000''"
    by (simp add: unreachable_env_def)
  have s: "isdigit (strip ''000'')" "digits_value (strip ''000'') < 200"
    by (simp_all add: text_simps)
  show ?thesis
    using summary_counts [of "[]" unreachable_env "[]" 5 "''https://gone.example''" "''000''"]
      r s by simp
qed


section \<open>Continuous mode takes one URL\<close>

text \<open>
  C5. When continuous mode is requested and the list of URLs (from the command line or
  from the file) has more than one entry, the script prints "Error: Continuous mode
  requires exactly one URL" and exits with status 1; nothing else happens in the run,
  so no probe is started.
\<close>

theorem continuous_needs_one_url:
  assumes "args_continuous a" and "determine_urls e a = Inr urls" and "length urls > 1"
  shows "main e a interrupt
           = Some ([Print ''Error: Continuous mode requires exactly one URL''], Exit 1)
         \<and> filter is_spawn (fst (the (main e a interrupt))) = []"
proof -
  from assms(3) have "urls \<noteq> []" by auto
  with assms have "main e a interrupt
      = Some ([Print ''Error: Continuous mode requires exactly one URL''], Exit 1)"
    by (simp add: main_def)
  then show ?thesis
    by (simp add: is_spawn_def)
qed

theorem continuous_needs_one_url_witness:
  "main demo_env two_url_args (Some 3)
     = Some ([Print ''Error: Continuous mode requires exactly one URL''], Exit 1)
   \<and> main (file_env (''https://good.example'' @ [newline] @ ''https://bad.example''
              @ [newline])) file_args None
     = Some ([Print ''Error: Continuous mode requires exactly one URL''], Exit 1)"
proof -
  have a: "determine_urls demo_env two_url_args
      = Inr [''https://good.example'', ''https://bad.example'']"
    by (simp add: determine_urls_def two_url_args_def)
  have b: "determine_urls
      (file_env (''https://good.example'' @ [newline] @ ''https://bad.example'' @ [newline]))
      file_args = Inr [''https://good.example'', ''https://bad.example'']"
    unfolding determine_urls_def read_urls_from_file_def file_env_def file_args_def
    by (simp add: startswith_hash_def strip_def lstrip_def rstrip_def isspace_def)
  show ?thesis
    using continuous_needs_one_url [OF _ a, of "Some 3"]
      continuous_needs_one_url [OF _ b, of None]
    by (simp add: two_url_args_def file_args_def)
qed


text \<open>With one URL the same request does probe: the first event after the three
  header lines starts curl.\<close>

lemma continuous_one_url_probes:
  assumes "args_continuous a" and "determine_urls e a = Inr [u]" and "0 \<le> args_interval a"
  shows "\<exists>evs. main e a (Some n) = Some (evs, Returned)
           \<and> evs ! 3 = Spawn (curl_cmd u (args_timeout a)) (args_timeout a + 2)"
  using assms
  by (simp add: main_def continuous_monitor_def check_application_health_def Let_def
      split: prod.splits)

section \<open>Targets read from a file\<close>

text \<open>
  C7, as the code has it. The list read from a file holds, in order and stripped of
  surrounding whitespace, the lines of the file that are not blank (not made of
  whitespace only) and whose first character is not \<open>#\<close>. Every entry is non-empty and
  has no whitespace at either end. The test for \<open>#\<close> is made on the line as read,
  before stripping.
\<close>

theorem targets_from_file:
  assumes "read_file e filename = Contents body"
  shows "read_urls_from_file e filename
           = Inr (map strip (filter (\<lambda>line. \<not> list_all isspace line
                                            \<and> \<not> (line \<noteq> [] \<and> hd line = CHR ''#''))
                                 (file_lines body)))
         \<and> list_all (\<lambda>t. t \<noteq> [] \<and> \<not> isspace (hd t) \<and> \<not> isspace (last t))
              (projr (read_urls_from_file e filename))"
proof -
  have p: "startswith_hash line \<longleftrightarrow> line \<noteq> [] \<and> hd line = CHR ''#''" for line
    by (cases line) (auto simp add: startswith_hash_def)
  have eq: "read_urls_from_file e filename
           = Inr (map strip (filter (\<lambda>line. \<not> list_all isspace line
                                            \<and> \<not> (line \<noteq> [] \<and> hd line = CHR ''#''))
                                 (file_lines body)))"
    using assms by (simp add: read_urls_from_file_def strip_empty_iff p)
  have "list_all (\<lambda>t. t \<noteq> [] \<and> \<not> isspace (hd t) \<and> \<not> isspace (last t))
      (map strip (filter (\<lambda>line. \<not> list_all isspace line
                                            \<and> \<not> (line \<noteq> [] \<and> hd line = CHR ''#''))
                                 (file_lines body)))"
    unfolding list_all_iff
  proof (intro ballI)
    fix t
    assume "t \<in> set (map strip (filter (\<lambda>line. \<not> (\<forall>c\<in>set line. isspace c)
                                            \<and> \<not> (line \<noteq> [] \<and> hd line = CHR ''#''))
                                 (file_lines body)))"
    then obtain l where l: "t = strip l" "\<not> (\<forall>c\<in>set l. isspace c)"
      by auto
    from l(2) have "strip l \<noteq> []"
      by (simp add: strip_empty_iff list_all_iff)
    with strip_outer [of l] l(1)
    show "t \<noteq> [] \<and> \<not> isspace (hd t) \<and> \<not> isspace (last t)"
      by simp
  qed
  with eq show ?thesis by simp
qed

theorem targets_from_file_witness:
  "read_urls_from_file
     (file_env (''# sites'' @ [newline] @ [newline] @ ''  https://good.example  ''
                @ [newline] @ ''   '' @ [newline] @ ''https://bad.example''))
     ''urls.txt''
   = Inr [''https://good.example'', ''https://bad.example'']"
proof -
  have r: "read_file (file_env body) ''urls.txt'' = Contents body" for body
    by (simp add: file_env_def)
  show ?thesis
    using targets_from_file [OF r, THEN conjunct1]
    by (simp add: strip_def lstrip_def rstrip_def isspace_def)
qed

text \<open>
  A line whose \<open>#\<close> comes after leading whitespace is not excluded: it is kept,
  stripped, as a target.
\<close>

theorem indented_comment_is_kept:
  "read_urls_from_file
     (file_env (''  # staging'' @ [newline] @ ''https://good.example'' @ [newline]))
     ''urls.txt''
   = Inr [''# staging'', ''https://good.example'']"
  by (simp add: read_urls_from_file_def file_env_def startswith_hash_def
      strip_def lstrip_def rstrip_def isspace_def)


section \<open>Alerts on resource metrics\<close>

text \<open>
  C2. With thresholds for cpu, memory and disk, a check of the system returns health
  data whose alert list has, for each of the three metrics, exactly one alert of that
  metric when the measured value is strictly greater than the threshold and none
  otherwise (so none when the value equals the threshold); the list has no other
  entries. The health data carry the measured values and the alerts, and no UP or
  DOWN status: the record has no such field.
\<close>

theorem alert_iff_above_threshold:
  assumes "thresholds ''cpu'' = Some cpu_limit"
    and "thresholds ''memory'' = Some memory_limit"
    and "thresholds ''disk'' = Some disk_limit"
  shows "\<exists>h. check_system_health e thresholds = Inr h
      \<and> cpu_usage h = get_cpu_usage e
      \<and> memory_usage h = get_memory_usage e
      \<and> disk_usage h = get_disk_usage e
      \<and> filter (prefix ''CPU usage is HIGH'') (alerts h)
          = (if get_cpu_usage e > of_int cpu_limit
             then [cpu_alert e (get_cpu_usage e) cpu_limit] else [])
      \<and> filter (prefix ''Memory usage is HIGH'') (alerts h)
          = (if get_memory_usage e > of_int memory_limit
             then [memory_alert e (get_memory_usage e) memory_limit] else [])
      \<and> filter (prefix ''Disk usage is HIGH'') (alerts h)
          = (if get_disk_usage e > of_int disk_limit
             then [disk_alert e (get_disk_usage e) disk_limit] else [])
      \<and> length (alerts h)
          = (if get_cpu_usage e > of_int cpu_limit then 1 else 0)
            + (if get_memory_usage e > of_int memory_limit then 1 else 0)
            + (if get_disk_usage e > of_int disk_limit then 1 else 0)"
  using assms by (simp add: check_system_health_def Let_def alert_prefixes)

theorem alert_iff_above_threshold_witness:
  "\<exists>h. check_system_health demo_host DEFAULT_THRESHOLDS = Inr h
      \<and> cpu_usage h = 163 / 2 \<and> memory_usage h = 80 \<and> disk_usage h = 45
      \<and> filter (prefix ''CPU usage is HIGH'') (alerts h)
          = [''CPU usage is HIGH: 81.5% (threshold: 80%)'']
      \<and> filter (prefix ''Memory usage is HIGH'') (alerts h) = []
      \<and> filter (prefix ''Disk usage is HIGH'') (alerts h) = []
      \<and> length (alerts h) = 1"
proof -
  have t: "DEFAULT_THRESHOLDS ''cpu'' = Some 80" "DEFAULT_THRESHOLDS ''memory'' = Some 80"
    "DEFAULT_THRESHOLDS ''disk'' = Some 80"
    by (simp_all add: DEFAULT_THRESHOLDS_def)
  have a: "cpu_alert demo_host (163 / 2) 80 = ''CPU usage is HIGH: 81.5% (threshold: 80%)''"
    by (simp add: cpu_alert_def demo_host_def demo_fmt_def text_simps)
  show ?thesis
    using alert_iff_above_threshold [OF t, of demo_host]
    by (simp add: demo_cpu demo_memory demo_disk a)
qed


section \<open>The CPU probe's fallback\<close>

text \<open>
  C6, as the code has it. When the platform's extraction fails (the \<open>top\<close> pipeline
  cannot be run, or its output is not a number: \<open>cpu_primary\<close> is \<open>None\<close>), the CPU
  probe reads /proc/loadavg. When the file can be read and its first field is a number
  \<open>load\<close>, the 1-minute load average, the result is the floating-point product
  \<open>load * 25\<close>, capped at 100. When the file cannot be read, is empty, or its first
  field is not a number, the result is 0. The probe's result is a number on every
  path: the function is total and its result type has no null value.
\<close>

theorem cpu_fallback_estimate:
  assumes "cpu_primary e = None"
  shows "(open_read e ''/proc/loadavg'' = Some body \<and> split_ws body = w # ws
            \<and> float_of e w = Some load
          \<longrightarrow> get_cpu_usage e = min (round_double (load * 25)) 100 \<and> get_cpu_usage e \<le> 100)
       \<and> (open_read e ''/proc/loadavg'' = None \<longrightarrow> get_cpu_usage e = 0)
       \<and> (open_read e ''/proc/loadavg'' = Some body \<and> split_ws body = []
          \<longrightarrow> get_cpu_usage e = 0)
       \<and> (open_read e ''/proc/loadavg'' = Some body \<and> split_ws body = w # ws
            \<and> float_of e w = None
          \<longrightarrow> get_cpu_usage e = 0)"
  using assms by (simp add: get_cpu_usage_def cpu_fallback_def)

theorem cpu_fallback_estimate_witness:
  "get_cpu_usage (loadavg_host (''0.52 0.48 0.45 1/234 5678'' @ [newline])) = 13
   \<and> get_cpu_usage (loadavg_host (''7.5 6.1 4.0 9/234 5678'' @ [newline])) = 100
   \<and> get_cpu_usage (loadavg_host []) = 0
   \<and> get_cpu_usage (loadavg_host ''up'') = 0
   \<and> get_cpu_usage dead_host = 0"
proof -
  have r: "open_read (loadavg_host body) ''/proc/loadavg'' = Some body" for body
    by (simp add: loadavg_host_def)
  have s1: "split_ws (''0.52 0.48 0.45 1/234 5678'' @ [newline])
      = ''0.52'' # [''0.48'', ''0.45'', ''1/234'', ''5678'']"
    by (simp add: split_ws_def isspace_def)
  have s2: "split_ws (''7.5 6.1 4.0 9/234 5678'' @ [newline])
      = ''7.5'' # [''6.1'', ''4.0'', ''9/234'', ''5678'']"
    by (simp add: split_ws_def isspace_def)
  have s3: "split_ws [] = []" "split_ws ''up'' = ''up'' # []"
    by (simp_all add: split_ws_def isspace_def)
  have f: "float_of (loadavg_host body) ''0.52''
      = Some (1170935903116329 / 2251799813685248)"
    "float_of (loadavg_host body) ''7.5'' = Some (15 / 2)"
    "float_of (loadavg_host body) ''up'' = None" for body
    by (simp_all add: loadavg_host_def demo_host_def demo_float_def)
  have d: "cpu_primary dead_host = None" "open_read dead_host ''/proc/loadavg'' = None"
    by (simp_all add: cpu_primary_def dead_host_def)
  have p: "round_double (29273397577908225 / 2251799813685248) = 13"
    "round_double (375 / 2) = 375 / 2"
    by code_simp+
  note th = cpu_fallback_estimate [OF loadavg_primary]
  show ?thesis
    using th [THEN conjunct1, rule_format, OF conjI [OF r conjI [OF s1 f(1)]]]
      th [THEN conjunct1, rule_format, OF conjI [OF r conjI [OF s2 f(2)]]]
      th [THEN conjunct2, THEN conjunct2, THEN conjunct1, rule_format, OF conjI [OF r s3(1)]]
      th [THEN conjunct2, THEN conjunct2, THEN conjunct2, rule_format,
        OF conjI [OF r conjI [OF s3(2) f(3)]]]
      cpu_fallback_estimate [OF d(1), THEN conjunct2, THEN conjunct1, rule_format, OF d(2)]
    by (simp add: p)
qed

text \<open>
  On a macOS host there is no /proc/loadavg: when \<open>top\<close> fails there, no load average
  is read and the result is the plain 0, not an estimate.
\<close>

theorem no_load_average_no_estimate:
  "cpu_primary mac_host = None \<and> open_read mac_host ''/proc/loadavg'' = None
   \<and> cpu_fallback mac_host = None \<and> get_cpu_usage mac_host = 0"
  by (simp add: get_cpu_usage_def cpu_primary_def cpu_fallback_def mac_host_def demo_host_def
      demo_float_def strip_def lstrip_def rstrip_def)


section \<open>What a failed probe leaves behind\<close>

text \<open>
  C3, as the code has it. Every failure path of the HTTP probe (the timeout, any other
  exception, an empty or non-numeric output) gives a DOWN verdict with a non-empty
  message that names the failure. A resource probe that fails returns the number 0:
  the CPU probe when its fallback fails too, the memory probe and the disk probe at
  once. Their result is a bare number and carries no message.
\<close>

theorem probe_failures:
  assumes "v = snd (check_application_health e k u t)"
  shows "(run e k (curl_cmd u t) (t + 2) = TimeoutExpired
          \<longrightarrow> status v = DOWN \<and> status_code v = TIMEOUT \<and> message v \<noteq> []
              \<and> message v = ''Request timeout after '' @ str_int t @ '' seconds'')
       \<and> (run e k (curl_cmd u t) (t + 2) = Raised err
          \<longrightarrow> status v = DOWN \<and> status_code v = ERROR \<and> message v \<noteq> []
              \<and> message v = ''Error: '' @ err)
       \<and> (run e k (curl_cmd u t) (t + 2) = Completed out \<and> \<not> isdigit (strip out)
          \<longrightarrow> status v = DOWN \<and> status_code v = NA \<and> message v \<noteq> []
              \<and> message v = ''Unable to connect or receive response'')
       \<and> (cpu_primary h = None \<and> cpu_fallback h = None \<longrightarrow> get_cpu_usage h = 0)
       \<and> (memory_measure h = None \<longrightarrow> get_memory_usage h = 0)
       \<and> (shell h disk_cmd = None \<longrightarrow> get_disk_usage h = 0)
       \<and> (shell h disk_cmd = Some dout \<and> float_of h (strip dout) = None
          \<longrightarrow> get_disk_usage h = 0)"
proof -
  have http: "(run e k (curl_cmd u t) (t + 2) = TimeoutExpired
          \<longrightarrow> status v = DOWN \<and> status_code v = TIMEOUT \<and> message v \<noteq> []
              \<and> message v = ''Request timeout after '' @ str_int t @ '' seconds'')
       \<and> (run e k (curl_cmd u t) (t + 2) = Raised err
          \<longrightarrow> status v = DOWN \<and> status_code v = ERROR \<and> message v \<noteq> []
              \<and> message v = ''Error: '' @ err)
       \<and> (run e k (curl_cmd u t) (t + 2) = Completed out \<and> \<not> isdigit (strip out)
          \<longrightarrow> status v = DOWN \<and> status_code v = NA \<and> message v \<noteq> []
              \<and> message v = ''Unable to connect or receive response'')"
    using assms by (auto simp add: check_application_health_def Let_def isdigit_def)
  have res: "(cpu_primary h = None \<and> cpu_fallback h = None \<longrightarrow> get_cpu_usage h = 0)
       \<and> (memory_measure h = None \<longrightarrow> get_memory_usage h = 0)
       \<and> (shell h disk_cmd = None \<longrightarrow> get_disk_usage h = 0)
       \<and> (shell h disk_cmd = Some dout \<and> float_of h (strip dout) = None
          \<longrightarrow> get_disk_usage h = 0)"
    by (simp add: get_cpu_usage_def get_memory_usage_def get_disk_usage_def)
  from http res show ?thesis by blast
qed

theorem probe_failures_witness:
  "(let v = snd (check_application_health demo_env 7 ''https://slow.example'' 5)
    in status v = DOWN \<and> message v = ''Request timeout after 5 seconds'')
 \<and> (let v = snd (check_application_health demo_env 8 ''https://slow.example'' 5)
    in status v = DOWN \<and> status_code v = ERROR
       \<and> message v = ''Error: [Errno 2] No such file or directory: curl'')
 \<and> (let v = snd (check_application_health demo_env 6 ''https://slow.example'' 5)
    in status v = DOWN \<and> message v = ''Unable to connect or receive response'')
 \<and> get_cpu_usage dead_host = 0 \<and> get_memory_usage dead_host = 0
 \<and> get_disk_usage dead_host = 0
 \<and> get_disk_usage (loadavg_host []) = 0"
proof -
  note th = probe_failures [OF refl, where e = demo_env and u = "''https://slow.example''"
      and t = 5]
  have r: "run demo_env 7 cmd7 t7 = TimeoutExpired"
    "run demo_env 8 cmd8 t8 = Raised ''[Errno 2] No such file or directory: curl''"
    "run demo_env 6 cmd6 t6 = Completed ''abc''" for cmd7 t7 cmd8 t8 cmd6 t6
    by (simp_all add: demo_env_def demo_outputs_def)
  have n: "\<not> isdigit (strip ''abc'')" "str_int 5 = ''5''"
    by (simp_all add: text_simps)
  have d: "cpu_primary dead_host = None" "cpu_fallback dead_host = None"
    "memory_measure dead_host = None" "shell dead_host disk_cmd = None"
    by (simp_all add: cpu_primary_def cpu_fallback_def memory_measure_def dead_host_def
        demo_host_def)
  have l: "shell (loadavg_host []) disk_cmd = Some []"
    "float_of (loadavg_host []) (strip []) = None"
    by (simp_all add: loadavg_host_def demo_host_def demo_float_def strip_def lstrip_def
        rstrip_def)
  show ?thesis
    using th [of 7 _ _ dead_host] th [of 8 "''[Errno 2] No such file or directory: curl''"]
      th [of 6 _ "''abc''" "loadavg_host []" "[]"] r n d l
    by (simp add: Let_def)
qed

text \<open>
  On a host where no command can be run and no file can be read, the health data are
  those of a healthy idle host: all three values 0, no alert, nothing that tells the
  failure.
\<close>

theorem failed_probes_look_idle:
  "check_system_health dead_host DEFAULT_THRESHOLDS
     = Inr \<lparr>report_timestamp = ''2024-01-01 00:00:00'', cpu_usage = 0, memory_usage = 0,
            disk_usage = 0, top_processes = [], alerts = []\<rparr>
   \<and> check_system_health dead_host DEFAULT_THRESHOLDS
     = check_system_health idle_host DEFAULT_THRESHOLDS"
  by (simp add: check_system_health_def Let_def DEFAULT_THRESHOLDS_def dead_values
      idle_values idle_memory idle_processes)
     (simp add: dead_host_def idle_host_def demo_host_def)

section \<open>Parsing the thresholds\<close>

text \<open>
  C8. Without a thresholds string, or with the empty one, the policy is the default:
  cpu, memory and disk at 80. A string written as \<open>key=value\<close> items separated by
  commas, each value an integer in decimal and no key holding a comma or an equals
  sign, is parsed without error, and the policy is the default overridden by the items
  in the order they are written, each under its key stripped of surrounding
  whitespace. So, when the keys are distinct, every key named in the string has the
  integer given for it, and every key the string does not name has what the default
  has for it: 80 for cpu, memory and disk.
\<close>

theorem parse_thresholds_policy:
  "parse_thresholds None = Inr DEFAULT_THRESHOLDS
   \<and> parse_thresholds (Some []) = Inr DEFAULT_THRESHOLDS
   \<and> DEFAULT_THRESHOLDS ''cpu'' = Some 80 \<and> DEFAULT_THRESHOLDS ''memory'' = Some 80
   \<and> DEFAULT_THRESHOLDS ''disk'' = Some 80
   \<and> (kvs \<noteq> [] \<and> list_all (\<lambda>(k, v). CHR '','' \<notin> set k \<and> CHR ''='' \<notin> set k) kvs
      \<longrightarrow> (\<exists>th. parse_thresholds (Some (render_pairs kvs)) = Inr th
            \<and> th = DEFAULT_THRESHOLDS ++ map_of (rev (map (\<lambda>(k, v). (strip k, v)) kvs))
            \<and> (distinct (map (\<lambda>(k, v). strip k) kvs)
                 \<longrightarrow> list_all (\<lambda>(k, v). th (strip k) = Some v) kvs)
            \<and> (\<forall>k. k \<notin> (\<lambda>(k, v). strip k) ` set kvs
                 \<longrightarrow> th k = DEFAULT_THRESHOLDS k)))"
proof -
  have dflt: "parse_thresholds None = Inr DEFAULT_THRESHOLDS"
    "parse_thresholds (Some []) = Inr DEFAULT_THRESHOLDS"
    "DEFAULT_THRESHOLDS ''cpu'' = Some 80" "DEFAULT_THRESHOLDS ''memory'' = Some 80"
    "DEFAULT_THRESHOLDS ''disk'' = Some 80"
    by (simp_all add: parse_thresholds_def DEFAULT_THRESHOLDS_def)
  have main: "\<exists>th. parse_thresholds (Some (render_pairs kvs)) = Inr th
            \<and> th = DEFAULT_THRESHOLDS ++ map_of (rev (map (\<lambda>(k, v). (strip k, v)) kvs))
            \<and> (distinct (map (\<lambda>(k, v). strip k) kvs)
                 \<longrightarrow> list_all (\<lambda>(k, v). th (strip k) = Some v) kvs)
            \<and> (\<forall>k. k \<notin> (\<lambda>(k, v). strip k) ` set kvs
                 \<longrightarrow> th k = DEFAULT_THRESHOLDS k)"
    if ne: "kvs \<noteq> []"
      and ok: "list_all (\<lambda>(k, v). CHR '','' \<notin> set k \<and> CHR ''='' \<notin> set k) kvs"
  proof -
    let ?ps = "map (\<lambda>(k, v). (strip k, v)) kvs"
    let ?th = "DEFAULT_THRESHOLDS ++ map_of (rev ?ps)"
    from ok have c: "list_all (\<lambda>kv. CHR '','' \<notin> set (fst kv)) kvs"
      and e: "list_all (\<lambda>kv. CHR ''='' \<notin> set (fst kv)) kvs"
      by (simp_all add: list_all_iff case_prod_unfold)
    have ps: "map (\<lambda>kv. (strip (fst kv), snd kv)) kvs = ?ps"
      by (simp add: case_prod_unfold)
    from ne have "render_pairs kvs \<noteq> []"
      by (cases kvs) (simp_all add: render_pairs_Cons item_def)
    then have parsed: "parse_thresholds (Some (render_pairs kvs)) = Inr ?th"
      using parse_items [OF e]
      by (simp add: parse_thresholds_def split_render [OF ne c] parse_pairs_eq ps)
    have keys: "map fst ?ps = map (\<lambda>(k, v). strip k) kvs"
      by (simp add: case_prod_unfold)
    have named: "list_all (\<lambda>(k, v). ?th (strip k) = Some v) kvs"
      if "distinct (map (\<lambda>(k, v). strip k) kvs)"
    proof -
      from that have "distinct (map fst ?ps)"
        by (simp only: keys)
      from map_of_distinct_all [OF this]
      have "list_all (\<lambda>(k, v). ?th k = Some v) ?ps"
        by (simp add: list_all_iff map_add_def case_prod_unfold)
      then show ?thesis
        by (simp add: list_all_iff case_prod_unfold)
    qed
    have unnamed: "\<forall>k. k \<notin> (\<lambda>(k, v). strip k) ` set kvs \<longrightarrow> ?th k = DEFAULT_THRESHOLDS k"
    proof (intro allI impI)
      fix k
      assume "k \<notin> (\<lambda>(k, v). strip k) ` set kvs"
      then have "k \<notin> fst ` set (rev ?ps)"
        by (simp add: image_image case_prod_unfold)
      then have "map_of (rev ?ps) k = None"
        by (rule map_of_eq_None_iff [THEN iffD2])
      then show "?th k = DEFAULT_THRESHOLDS k"
        by (simp add: map_add_def)
    qed
    from parsed named unnamed show ?thesis
      by blast
  qed
  from dflt main show ?thesis
    by blast
qed

theorem parse_thresholds_policy_witness:
  "(\<exists>th. parse_thresholds (Some ''cpu=90, memory=85'') = Inr th
      \<and> th ''cpu'' = Some 90 \<and> th ''memory'' = Some 85 \<and> th ''disk'' = Some 80)
   \<and> (\<exists>th. parse_thresholds (Some ''cpu=150,disk=-1'') = Inr th
      \<and> th ''cpu'' = Some 150 \<and> th ''memory'' = Some 80 \<and> th ''disk'' = Some (- 1))"
proof -
  have n: "str_int 90 = ''90''" "str_int 85 = ''85''" "str_int 150 = ''150''"
    "str_int (- 1) = ''-1''"
    by (simp_all add: text_simps)
  have s: "strip ''cpu'' = ''cpu''" "strip '' memory'' = ''memory''" "strip ''disk'' = ''disk''"
    by (simp_all add: strip_def lstrip_def rstrip_def isspace_def)
  have d: "DEFAULT_THRESHOLDS ''cpu'' = Some 80" "DEFAULT_THRESHOLDS ''memory'' = Some 80"
    "DEFAULT_THRESHOLDS ''disk'' = Some 80"
    by (simp_all add: DEFAULT_THRESHOLDS_def)
  from parse_thresholds_policy [of "[(''cpu'', 90), ('' memory'', 85)]"]
  have a: "\<exists>th. parse_thresholds (Some ''cpu=90, memory=85'') = Inr th
      \<and> th ''cpu'' = Some 90 \<and> th ''memory'' = Some 85 \<and> th ''disk'' = Some 80"
    by (simp add: n s d map_add_def)
  from parse_thresholds_policy [of "[(''cpu'', 150), (''disk'', - 1)]"]
  have b: "\<exists>th. parse_thresholds (Some ''cpu=150,disk=-1'') = Inr th
      \<and> th ''cpu'' = Some 150 \<and> th ''memory'' = Some 80 \<and> th ''disk'' = Some (- 1)"
    by (simp add: n s d map_add_def)
  from a b show ?thesis ..
qed


end
